theory Spec2Isabelle
  imports Complex_Main "HOL-Library.Code_Target_Nat"
begin

section \<open>Python text\<close>

text \<open>
  A Python \<open>str\<close> is a sequence of code points. The model uses \<^typ>\<open>string\<close>, whose
  characters are the code points U+0000 to U+00FF (the Latin-1 range, which holds every
  header the program looks for: \<open>Raz\<close>\<open>a-tilde\<close>\<open>o Social\<close>, \<open>T\<close>\<open>i-acute\<close>\<open>tulo\<close>,
  \<open>Esp\<close>\<open>e-acute\<close>\<open>cie\<close>). \<open>length\<close>, \<open>take\<close> and \<open>drop\<close> therefore count code points, as
  Python's \<open>len\<close> and slices do.
\<close>

definition ord :: "char \<Rightarrow> nat" where
  "ord c = of_char c"

definition is_space :: "char \<Rightarrow> bool" where
  \<comment> \<open>\<open>str.isspace\<close> on U+0000..U+00FF: TAB..CR, FS..US, SPACE, NEL, NBSP\<close>
  "is_space c = ((9 \<le> ord c \<and> ord c \<le> 13) \<or> (28 \<le> ord c \<and> ord c \<le> 32)
                 \<or> ord c = 133 \<or> ord c = 160)"

definition is_digit :: "char \<Rightarrow> bool" where
  "is_digit c = (48 \<le> ord c \<and> ord c \<le> 57)"

definition digit_val :: "char \<Rightarrow> nat" where
  "digit_val c = ord c - 48"

definition py_strip :: "string \<Rightarrow> string" where
  \<comment> \<open>\<open>s.strip()\<close>\<close>
  "py_strip s = rev (dropWhile is_space (rev (dropWhile is_space s)))"

definition lower_char :: "char \<Rightarrow> char" where
  \<comment> \<open>\<open>str.lower\<close> on U+0000..U+00FF: A..Z and the accented capitals, not the sign U+00D7\<close>
  "lower_char c =
     (if (65 \<le> ord c \<and> ord c \<le> 90) \<or> (192 \<le> ord c \<and> ord c \<le> 222 \<and> ord c \<noteq> 215)
      then char_of (ord c + 32) else c)"

definition py_lower :: "string \<Rightarrow> string" where
  "py_lower s = map lower_char s"

function py_replace :: "string \<Rightarrow> string \<Rightarrow> string \<Rightarrow> string" where
  \<comment> \<open>\<open>s.replace(old, new)\<close>: every occurrence, left to right, without overlap\<close>
  "py_replace old new [] = (if old = [] then new else [])"
| "py_replace old new (c # cs) =
     (if old = [] then new @ c # py_replace old new cs
      else if take (length old) (c # cs) = old
           then new @ py_replace old new (drop (length old) (c # cs))
           else c # py_replace old new cs)"
  by pat_completeness auto
termination
  by (relation "measure (\<lambda>(old, new, s). length s)") auto

definition endswith :: "string \<Rightarrow> string \<Rightarrow> bool" where
  "endswith s suf = (length suf \<le> length s \<and> drop (length s - length suf) s = suf)"

function str_nat :: "nat \<Rightarrow> string" where
  \<comment> \<open>decimal digits of a natural number\<close>
  "str_nat n = (if n < 10 then [char_of (48 + n)] else str_nat (n div 10) @ [char_of (48 + n mod 10)])"
  by pat_completeness auto
termination
  by (relation "measure id") auto

declare str_nat.simps [simp del]

definition str_int :: "int \<Rightarrow> string" where
  \<comment> \<open>\<open>str(i)\<close> of a Python int\<close>
  "str_int i = (if i < 0 then CHR ''-'' # str_nat (nat (- i)) else str_nat (nat i))"

definition zfill :: "nat \<Rightarrow> string \<Rightarrow> string" where
  \<comment> \<open>left padding with zeros to a minimal width, as \<open>%02d\<close> and \<open>%04d\<close> do\<close>
  "zfill w s = replicate (w - length s) CHR ''0'' @ s"

section \<open>Python numbers\<close>

text \<open>
  A Python \<open>float\<close> is an IEEE double. A finite double is a rational number, so the model
  carries its exact value; \<open>Fin 0\<close> is the positive zero and \<open>NZero\<close> the negative one.
  What the interpreter computes with doubles is not code of this program and is taken
  as a parameter: \<open>to_double\<close> rounds a rational to the nearest double (an infinity on
  overflow), and \<open>float_repr\<close> is the text \<open>repr\<close> prints for a finite double other than
  a zero. An integer up to \<open>2^53\<close> in absolute value is a double, so rounding leaves it as
  it is: \<open>to_float\<close> says so and asks the parameter for every other number.
\<close>

datatype pyfloat = Fin rat | NZero | PInf | NInf | NaN

record pyrt =
  to_double :: "rat \<Rightarrow> pyfloat"
  float_repr :: "rat \<Rightarrow> string"

definition to_float :: "pyrt \<Rightarrow> rat \<Rightarrow> pyfloat" where
  \<comment> \<open>the double nearest a rational\<close>
  "to_float rt q = (if rat_of_int \<lfloor>q\<rfloor> = q \<and> \<bar>q\<bar> \<le> 2 ^ 53 then Fin q else to_double rt q)"

datatype exn = ValueError | TypeError | OverflowError | LibError string

definition str_exn :: "exn \<Rightarrow> string" where
  \<comment> \<open>\<open>str(e)\<close> as far as the response shows it\<close>
  "str_exn e = (case e of
      ValueError \<Rightarrow> ''ValueError''
    | TypeError \<Rightarrow> ''TypeError''
    | OverflowError \<Rightarrow> ''int too large to convert to float''
    | LibError m \<Rightarrow> m)"

definition digits_val :: "string \<Rightarrow> nat" where
  "digits_val ds = foldl (\<lambda>a c. 10 * a + digit_val c) 0 ds"

fun strip_underscores :: "char \<Rightarrow> string \<Rightarrow> string option" where
  \<comment> \<open>CPython's check of digit separators: an underscore only between two digits\<close>
  "strip_underscores prev [] = (if prev = CHR ''_'' then None else Some [])"
| "strip_underscores prev (c # cs) =
     (if c = CHR ''_''
      then (if is_digit prev then strip_underscores c cs else None)
      else if prev = CHR ''_'' \<and> \<not> is_digit c then None
      else map_option (\<lambda>r. c # r) (strip_underscores c cs))"

definition parse_exponent :: "string \<Rightarrow> int option" where
  "parse_exponent e =
     (let neg = (e \<noteq> [] \<and> hd e = CHR ''-'');
          ds = (if e \<noteq> [] \<and> (hd e = CHR ''-'' \<or> hd e = CHR ''+'') then tl e else e)
      in if ds \<noteq> [] \<and> list_all is_digit ds
         then Some (if neg then - int (digits_val ds) else int (digits_val ds))
         else None)"

definition is_e :: "char \<Rightarrow> bool" where
  "is_e c = (c = CHR ''e'' \<or> c = CHR ''E'')"

definition parse_decimal :: "string \<Rightarrow> rat option" where
  \<comment> \<open>digits, an optional point and digits, an optional exponent; at least one digit\<close>
  "parse_decimal body =
     (let mant = takeWhile (\<lambda>c. \<not> is_e c) body;
          rest = dropWhile (\<lambda>c. \<not> is_e c) body;
          ip = takeWhile (\<lambda>c. c \<noteq> CHR ''.'') mant;
          fp = drop 1 (dropWhile (\<lambda>c. c \<noteq> CHR ''.'') mant);
          base = rat_of_nat (digits_val (ip @ fp)) / 10 ^ length fp
      in if list_all is_digit ip \<and> list_all is_digit fp \<and> ip @ fp \<noteq> []
         then (if rest = [] then Some base
               else (case parse_exponent (tl rest) of
                       None \<Rightarrow> None
                     | Some k \<Rightarrow> Some (if 0 \<le> k then base * 10 ^ nat k
                                          else base / 10 ^ nat (- k))))
         else None)"

definition py_float :: "pyrt \<Rightarrow> string \<Rightarrow> exn + pyfloat" where
  \<comment> \<open>\<open>float(s)\<close> of a \<open>str\<close>: \<open>ValueError\<close> unless the text is a float literal\<close>
  "py_float rt s =
     (case strip_underscores (CHR 0x00) s of
        None \<Rightarrow> Inl ValueError
      | Some u \<Rightarrow>
          (let t = py_strip u;
               neg = (t \<noteq> [] \<and> hd t = CHR ''-'');
               body = (if t \<noteq> [] \<and> (hd t = CHR ''-'' \<or> hd t = CHR ''+'') then tl t else t)
           in if py_lower body = ''inf'' \<or> py_lower body = ''infinity''
              then Inr (if neg then NInf else PInf)
              else if py_lower body = ''nan'' then Inr NaN
              else (case parse_decimal body of
                      None \<Rightarrow> Inl ValueError
                    | Some q \<Rightarrow> Inr (if q = 0 \<and> neg then NZero
                                    else to_float rt (if neg then - q else q)))))"

section \<open>Dates\<close>

record datetime =
  dt_year :: nat
  dt_month :: nat
  dt_day :: nat
  dt_hour :: nat
  dt_minute :: nat
  dt_second :: nat
  dt_micro :: nat

definition strftime_dmy :: "datetime \<Rightarrow> string" where
  \<comment> \<open>\<open>d.strftime("%d/%m/%Y")\<close>, the year with four digits as documented for \<open>%Y\<close>
      (for a year below 1000 the C library of some platforms leaves the zeros out)\<close>
  "strftime_dmy d =
     zfill 2 (str_nat (dt_day d)) @ ''/'' @ zfill 2 (str_nat (dt_month d)) @ ''/'' @
     zfill 4 (str_nat (dt_year d))"

definition str_datetime :: "datetime \<Rightarrow> string" where
  \<comment> \<open>\<open>str(d)\<close>, which is \<open>d.isoformat(sep=' ')\<close>\<close>
  "str_datetime d =
     zfill 4 (str_nat (dt_year d)) @ ''-'' @ zfill 2 (str_nat (dt_month d)) @ ''-'' @
     zfill 2 (str_nat (dt_day d)) @ '' '' @ zfill 2 (str_nat (dt_hour d)) @ '':'' @
     zfill 2 (str_nat (dt_minute d)) @ '':'' @ zfill 2 (str_nat (dt_second d)) @
     (if dt_micro d = 0 then [] else ''.'' @ zfill 6 (str_nat (dt_micro d)))"

definition leap_year :: "nat \<Rightarrow> bool" where
  "leap_year y = (y mod 4 = 0 \<and> (y mod 100 \<noteq> 0 \<or> y mod 400 = 0))"

definition days_in_month :: "nat \<Rightarrow> nat \<Rightarrow> nat" where
  "days_in_month y m =
     (if m = 2 then (if leap_year y then 29 else 28)
      else if m = 4 \<or> m = 6 \<or> m = 9 \<or> m = 11 then 30 else 31)"

definition month_token :: "string \<Rightarrow> bool" where
  \<comment> \<open>the directive \<open>%m\<close> of \<open>strptime\<close>: \<open>1[0-2]|0[1-9]|[1-9]\<close>\<close>
  "month_token m = (list_all is_digit m \<and> (length m = 1 \<or> length m = 2)
                    \<and> 1 \<le> digits_val m \<and> digits_val m \<le> 12)"

definition day_token :: "string \<Rightarrow> bool" where
  \<comment> \<open>the directive \<open>%d\<close> of \<open>strptime\<close>: \<open>3[01]|[12]\d|0[1-9]|[1-9]| [1-9]\<close>\<close>
  "day_token d =
     ((list_all is_digit d \<and> (length d = 1 \<or> length d = 2)
        \<and> 1 \<le> digits_val d \<and> digits_val d \<le> 31)
      \<or> (length d = 2 \<and> take 1 d = '' '' \<and> list_all is_digit (drop 1 d)
          \<and> 1 \<le> digits_val (drop 1 d)))"

definition strptime_ymd :: "string \<Rightarrow> exn + datetime" where
  \<comment> \<open>\<open>datetime.strptime(s, '%Y-%m-%d')\<close>: the whole text must match, and the date must exist\<close>
  "strptime_ymd s =
     (let y = take 4 s;
          r = drop 5 s;
          m = takeWhile (\<lambda>c. c \<noteq> CHR ''-'') r;
          d = drop 1 (dropWhile (\<lambda>c. c \<noteq> CHR ''-'') r);
          dv = digits_val (if take 1 d = '' '' then drop 1 d else d)
      in if length y = 4 \<and> list_all is_digit y \<and> take 1 (drop 4 s) = ''-''
            \<and> month_token m \<and> dropWhile (\<lambda>c. c \<noteq> CHR ''-'') r \<noteq> [] \<and> day_token d
            \<and> 1 \<le> digits_val y \<and> dv \<le> days_in_month (digits_val y) (digits_val m)
         then Inr \<lparr>dt_year = digits_val y, dt_month = digits_val m, dt_day = dv,
                    dt_hour = 0, dt_minute = 0, dt_second = 0, dt_micro = 0\<rparr>
         else Inl ValueError)"

section \<open>Cell values\<close>

text \<open>
  A cell is a value of the row that \<open>df.iterrows()\<close> yields, and it is dynamically
  typed. In a table whose columns differ in type, text beside numbers for instance, the
  row holds Python values: \<open>bool\<close>, \<open>int\<close>, \<open>float\<close> (an empty cell is the float NaN),
  \<open>str\<close>, date-times and the missing date-time \<open>NaT\<close>. In a table whose columns are all
  integer, or all boolean, the row holds the scalars \<open>numpy.int64\<close> and \<open>numpy.bool_\<close>
  of the array library, which are not instances of \<open>int\<close> or \<open>float\<close>: \<open>NpInt\<close> and
  \<open>NpBool\<close>. The scalar \<open>numpy.float64\<close> of an all-numeric table with a float column is
  a subclass of \<open>float\<close> and is a \<open>PyFloat\<close>.
\<close>

datatype cell = PyBool bool | PyInt int | PyFloat pyfloat | PyStr string
  | PyDatetime datetime | NaT | NpInt int | NpBool bool

definition py_str :: "pyrt \<Rightarrow> cell \<Rightarrow> string" where
  \<comment> \<open>\<open>str(v)\<close>\<close>
  "py_str rt v = (case v of
      PyBool b \<Rightarrow> (if b then ''True'' else ''False'')
    | PyInt i \<Rightarrow> str_int i
    | PyFloat f \<Rightarrow> (case f of
                       Fin q \<Rightarrow> (if q = 0 then ''0.0'' else float_repr rt q)
                     | NZero \<Rightarrow> ''-0.0'' | PInf \<Rightarrow> ''inf''
                     | NInf \<Rightarrow> ''-inf'' | NaN \<Rightarrow> ''nan'')
    | PyStr s \<Rightarrow> s
    | PyDatetime d \<Rightarrow> str_datetime d
    | NaT \<Rightarrow> ''NaT''
    | NpInt i \<Rightarrow> str_int i
    | NpBool b \<Rightarrow> (if b then ''True'' else ''False''))"

definition is_number :: "cell \<Rightarrow> bool" where
  \<comment> \<open>\<open>isinstance(v, (int, float))\<close>; \<open>bool\<close> is a subclass of \<open>int\<close>, the scalars
      \<open>numpy.int64\<close> and \<open>numpy.bool_\<close> are neither\<close>
  "is_number v = (case v of PyBool b \<Rightarrow> True | PyInt i \<Rightarrow> True | PyFloat f \<Rightarrow> True
                   | PyStr s \<Rightarrow> False | PyDatetime d \<Rightarrow> False | NaT \<Rightarrow> False
                   | NpInt i \<Rightarrow> False | NpBool b \<Rightarrow> False)"

definition truthy :: "cell \<Rightarrow> bool" where
  \<comment> \<open>\<open>bool(v)\<close>; NaN is not zero, so it is true\<close>
  "truthy v = (case v of PyBool b \<Rightarrow> b | PyInt i \<Rightarrow> i \<noteq> 0
                | PyFloat f \<Rightarrow> f \<noteq> Fin 0 \<and> f \<noteq> NZero | PyStr s \<Rightarrow> s \<noteq> []
                | PyDatetime d \<Rightarrow> True | NaT \<Rightarrow> True
                | NpInt i \<Rightarrow> i \<noteq> 0 | NpBool b \<Rightarrow> b)"

definition notna :: "cell \<Rightarrow> bool" where
  \<comment> \<open>\<open>pd.notna(v)\<close>\<close>
  "notna v = (v \<noteq> PyFloat NaN \<and> v \<noteq> NaT)"

section \<open>Currency\<close>

definition limpar_texto :: "string \<Rightarrow> string" where
  \<comment> \<open>the text handed to \<open>float\<close> in \<open>limpar_moeda\<close>\<close>
  "limpar_texto s =
     py_strip (py_replace '','' ''.'' (py_replace ''.'' [] (py_replace ''R$'' [] s)))"

definition limpar_moeda :: "pyrt \<Rightarrow> cell \<Rightarrow> exn + cell" where
  \<comment> \<open>\<open>Inl\<close> would be an exception leaving the function; the bare \<open>except\<close> catches all\<close>
  "limpar_moeda rt valor =
     (if is_number valor then Inr valor
      else (case py_float rt (limpar_texto (py_str rt valor)) of
              Inr f \<Rightarrow> Inr (PyFloat f)
            | Inl e \<Rightarrow> Inr (PyFloat (Fin 0))))"

definition round_half_even :: "rat \<Rightarrow> nat" where
  \<comment> \<open>the nearest integer to a non-negative rational, a tie to the even one\<close>
  "round_half_even q =
     (let f = nat \<lfloor>q\<rfloor>; d = q - of_int \<lfloor>q\<rfloor>
      in if d < 1 / 2 then f else if 1 / 2 < d then f + 1
         else if even f then f else f + 1)"

function group3 :: "string \<Rightarrow> string" where
  \<comment> \<open>the grouping option \<open>,\<close> of the format language: a comma every three digits\<close>
  "group3 s = (if length s \<le> 3 then s
               else group3 (take (length s - 3) s) @ '','' @ drop (length s - 3) s)"
  by pat_completeness auto
termination
  by (relation "measure length") auto

declare group3.simps [simp del]

definition fmt_2f :: "pyfloat \<Rightarrow> string" where
  \<comment> \<open>\<open>format(x, ',.2f')\<close> of a float\<close>
  "fmt_2f x = (case x of
      Fin q \<Rightarrow>
        (let c = round_half_even (\<bar>q\<bar> * 100)
         in (if q < 0 then ''-'' else []) @ group3 (str_nat (c div 100)) @ ''.'' @
            zfill 2 (str_nat (c mod 100)))
    | NZero \<Rightarrow> ''-0.00'' | PInf \<Rightarrow> ''inf'' | NInf \<Rightarrow> ''-inf'' | NaN \<Rightarrow> ''nan'')"

definition int_to_float :: "pyrt \<Rightarrow> int \<Rightarrow> exn + pyfloat" where
  \<comment> \<open>\<open>float(i)\<close> of an int: exact up to \<open>2^53\<close>, rounded beyond, and
      \<open>OverflowError\<close> beyond the range of a double\<close>
  "int_to_float rt i =
     (case to_float rt (of_int i) of
        Fin q \<Rightarrow> Inr (Fin q) | NZero \<Rightarrow> Inr NZero | PInf \<Rightarrow> Inl OverflowError
      | NInf \<Rightarrow> Inl OverflowError | NaN \<Rightarrow> Inl OverflowError)"

definition as_float :: "pyrt \<Rightarrow> cell \<Rightarrow> exn + pyfloat" where
  \<comment> \<open>the float a Python number is converted to when it meets a float or the format
      type \<open>f\<close>; the operands in this program are results of \<open>limpar_moeda\<close>, which are
      Python numbers\<close>
  "as_float rt v = (case v of
      PyBool b \<Rightarrow> Inr (Fin (if b then 1 else 0))
    | PyInt i \<Rightarrow> int_to_float rt i
    | PyFloat f \<Rightarrow> Inr f
    | _ \<Rightarrow> Inl TypeError)"

definition fmt_moeda :: "pyrt \<Rightarrow> cell \<Rightarrow> exn + string" where
  \<comment> \<open>the expression \<open>f"R$ {v:,.2f}".replace('.', ',')\<close> of \<open>processar_notas\<close>\<close>
  "fmt_moeda rt v = (case as_float rt v of
      Inl e \<Rightarrow> Inl e
    | Inr f \<Rightarrow> Inr (py_replace ''.'' '','' (''R$ '' @ fmt_2f f)))"

section \<open>Rows\<close>

text \<open>
  A row of the table is an ordered mapping from header to cell: \<open>df.columns\<close> are its
  keys, in order. The model covers the tables whose headers are texts that are distinct
  after the program has stripped them. A table is the sequence of its rows, each with
  its index label, as \<open>df.iterrows()\<close> yields them; a label is a Python value. The
  readers build the range index \<open>0, 1, 2, ...\<close> when the data rows have as many fields as
  the header; when the rows of a CSV file have one field more, the first field of each
  row is its label.
\<close>

type_synonym row = "(string \<times> cell) list"

type_synonym table = "(cell \<times> row) list"

definition range_index :: "table \<Rightarrow> bool" where
  \<comment> \<open>the labels are the positions \<open>0, 1, 2, ...\<close>\<close>
  "range_index df = (map fst df = map (\<lambda>i. PyInt (int i)) [0..<length df])"

definition columns :: "row \<Rightarrow> string list" where
  "columns r = map fst r"

definition row_get :: "row \<Rightarrow> string \<Rightarrow> cell \<Rightarrow> cell" where
  \<comment> \<open>\<open>row.get(key, default)\<close>\<close>
  "row_get r k dflt = (case map_of r k of None \<Rightarrow> dflt | Some v \<Rightarrow> v)"

definition py_or :: "cell option \<Rightarrow> cell \<Rightarrow> cell" where
  \<comment> \<open>\<open>a or b\<close>, where \<open>a\<close> is the \<open>None\<close> of a missing key or a cell\<close>
  "py_or a b = (case a of None \<Rightarrow> b | Some v \<Rightarrow> (if truthy v then v else b))"

subsection \<open>Emission date\<close>

definition data_emissao :: "pyrt \<Rightarrow> datetime \<Rightarrow> string \<Rightarrow> string \<Rightarrow> row \<Rightarrow> string" where
  "data_emissao rt now modo_data data_custom r =
     (if modo_data = ''escolher'' \<and> data_custom \<noteq> []
      then (case strptime_ymd data_custom of
              Inr data_obj \<Rightarrow> strftime_dmy data_obj
            | Inl e \<Rightarrow> strftime_dmy now)
      else if modo_data = ''venda''
      then (if ''Data'' \<in> set (columns r) \<and> notna (row_get r ''Data'' NaT)
            then (case row_get r ''Data'' NaT of
                    PyDatetime d \<Rightarrow> strftime_dmy d
                  | _ \<Rightarrow> py_str rt (row_get r ''Data'' NaT))
            else strftime_dmy now)
      else strftime_dmy now)"

subsection \<open>Customer name\<close>

definition razao_social :: string where
  "razao_social = ''Raz'' @ [CHR 0xE3] @ ''o Social''"

definition titulo_key :: string where
  "titulo_key = ''T'' @ [CHR 0xED] @ ''tulo''"

definition especie_key :: string where
  "especie_key = ''Esp'' @ [CHR 0xE9] @ ''cie''"

definition servico :: string where
  "servico = ''Servi'' @ [CHR 0xE7] @ ''o''"

definition buscas :: "string list" where
  "buscas = [''Resp. Fin'', ''Resp Fin'', ''Resp. Fin.'', ''Nome'', ''Cliente'', razao_social]"

fun busca_exata :: "row \<Rightarrow> string list \<Rightarrow> cell option" where
  \<comment> \<open>the first loop: the first candidate that is a column with a cell that is not missing\<close>
  "busca_exata r [] = None"
| "busca_exata r (b # bs) =
     (if b \<in> set (columns r) \<and> notna (row_get r b NaT) then Some (row_get r b NaT)
      else busca_exata r bs)"

definition limpa :: "string \<Rightarrow> string" where
  "limpa col = py_replace '' '' [] (py_replace ''.'' [] (py_lower col))"

fun busca_limpa :: "row \<Rightarrow> string list \<Rightarrow> cell option" where
  \<comment> \<open>the second loop, over the columns in their order\<close>
  "busca_limpa r [] = None"
| "busca_limpa r (col # cols) =
     (if limpa col \<in> set [''respfin'', ''nome'', ''cliente'', ''razaosocial'']
         \<and> notna (row_get r col NaT)
      then Some (row_get r col NaT)
      else busca_limpa r cols)"

definition nome_1 :: "row \<Rightarrow> cell" where
  \<comment> \<open>\<open>nome_cliente\<close> after the first loop\<close>
  "nome_1 r = (case busca_exata r buscas of None \<Rightarrow> PyStr ''Consumidor'' | Some v \<Rightarrow> v)"

definition nome_cliente :: "row \<Rightarrow> cell" where
  "nome_cliente r =
     (if nome_1 r = PyStr ''Consumidor''
      then (case busca_limpa r (columns r) of None \<Rightarrow> nome_1 r | Some v \<Rightarrow> v)
      else nome_1 r)"

section \<open>One row\<close>

record item =
  temp_id :: cell
  nome_arquivo :: string
  respFin :: cell
  origem :: cell
  cpf :: cell
  titulo :: cell
  especie :: cell
  vDevido :: string
  vReceb :: string
  vDesc :: string
  pContas :: cell
  cpfResp :: cell
  data :: string
  venc :: string
  arquivo :: string

text \<open>
  The worksheet, as far as it depends on the row: the cells the program fills from the
  row's values. Labels, headers, styles and column widths are constants of the template.
\<close>

record sheet =
  B4 :: cell
  D4 :: string
  B8 :: cell
  B9 :: cell
  B10 :: cell
  A15 :: string
  B15 :: string
  C15 :: cell
  D15 :: cell
  D17 :: cell

text \<open>
  What the libraries do with the finished values is a parameter: \<open>render\<close> lays the
  workbook out, saves it and encodes it in base64, or raises; \<open>jsonify\<close> raises
  (\<open>Some\<close>) or serialises the records.
\<close>

record env =
  render :: "sheet \<Rightarrow> exn + string"
  jsonify :: "item list \<Rightarrow> exn option"

definition bind :: "exn + 'a \<Rightarrow> ('a \<Rightarrow> exn + 'b) \<Rightarrow> exn + 'b" where
  \<comment> \<open>sequencing: an exception of the first step skips the rest\<close>
  "bind m f = (case m of Inl e \<Rightarrow> Inl e | Inr x \<Rightarrow> f x)"

definition finite_val :: "pyfloat \<Rightarrow> rat option" where
  \<comment> \<open>the value of a finite double; both zeros have the value 0\<close>
  "finite_val x = (case x of Fin a \<Rightarrow> Some a | NZero \<Rightarrow> Some 0 | _ \<Rightarrow> None)"

definition fadd :: "pyrt \<Rightarrow> pyfloat \<Rightarrow> pyfloat \<Rightarrow> pyfloat" where
  \<comment> \<open>the sum of two doubles; a zero sum is negative only when both terms are\<close>
  "fadd rt x y =
     (if x = NaN \<or> y = NaN \<or> (x = PInf \<and> y = NInf) \<or> (x = NInf \<and> y = PInf) then NaN
      else if x = PInf \<or> y = PInf then PInf
      else if x = NInf \<or> y = NInf then NInf
      else (case (finite_val x, finite_val y) of
              (Some a, Some b) \<Rightarrow>
                (if a + b = 0 then (if x = NZero \<and> y = NZero then NZero else Fin 0)
                 else to_float rt (a + b))
            | _ \<Rightarrow> NaN))"

definition fneg :: "pyfloat \<Rightarrow> pyfloat" where
  "fneg x = (case x of Fin a \<Rightarrow> (if a = 0 then NZero else Fin (- a)) | NZero \<Rightarrow> Fin 0
              | PInf \<Rightarrow> NInf | NInf \<Rightarrow> PInf | NaN \<Rightarrow> NaN)"

definition fsub :: "pyrt \<Rightarrow> pyfloat \<Rightarrow> pyfloat \<Rightarrow> pyfloat" where
  \<comment> \<open>the difference of two doubles\<close>
  "fsub rt x y = fadd rt x (fneg y)"

definition wrap64 :: "int \<Rightarrow> int" where
  \<comment> \<open>the wrap-around of the 64-bit integers of the array library\<close>
  "wrap64 i = (i + 2 ^ 63) mod 2 ^ 64 - 2 ^ 63"

definition mais_1000 :: "pyrt \<Rightarrow> cell \<Rightarrow> exn + cell" where
  \<comment> \<open>the expression \<open>1000 + index\<close>; the index label of a row is a Python value\<close>
  "mais_1000 rt index = (case index of
      PyBool b \<Rightarrow> Inr (PyInt (1000 + (if b then 1 else 0)))
    | PyInt i \<Rightarrow> Inr (PyInt (1000 + i))
    | PyFloat f \<Rightarrow> Inr (PyFloat (fadd rt (Fin 1000) f))
    | PyStr s \<Rightarrow> Inl TypeError
    | PyDatetime d \<Rightarrow> Inl TypeError
    | NaT \<Rightarrow> Inr NaT
    | NpInt i \<Rightarrow> Inr (NpInt (wrap64 (1000 + i)))
    | NpBool b \<Rightarrow> Inr (NpInt (1000 + (if b then 1 else 0))))"

definition int_of :: "cell \<Rightarrow> int option" where
  \<comment> \<open>the value of an \<open>int\<close> or a \<open>bool\<close>\<close>
  "int_of v = (case v of PyBool b \<Rightarrow> Some (if b then 1 else 0) | PyInt i \<Rightarrow> Some i
                | _ \<Rightarrow> None)"

definition py_sub :: "pyrt \<Rightarrow> cell \<Rightarrow> cell \<Rightarrow> exn + cell" where
  \<comment> \<open>\<open>a - b\<close> of two numbers: exact on ints, in doubles as soon as one is a float\<close>
  "py_sub rt a b = (case (int_of a, int_of b) of
      (Some i, Some j) \<Rightarrow> Inr (PyInt (i - j))
    | _ \<Rightarrow> bind (as_float rt a) (\<lambda>x. bind (as_float rt b) (\<lambda>y. Inr (PyFloat (fsub rt x y)))))"

definition val_devido :: "pyrt \<Rightarrow> row \<Rightarrow> exn + cell" where
  "val_devido rt r = limpar_moeda rt (row_get r ''V. Devido'' (PyInt 0))"

definition val_receb :: "pyrt \<Rightarrow> row \<Rightarrow> exn + cell" where
  "val_receb rt r = limpar_moeda rt (row_get r ''V. Receb'' (PyInt 0))"

definition val_desc :: "pyrt \<Rightarrow> row \<Rightarrow> exn + cell" where
  "val_desc rt r = limpar_moeda rt (row_get r ''V. Desc'' (PyInt 0))"

definition item_dados :: "pyrt \<Rightarrow> datetime \<Rightarrow> string \<Rightarrow> string \<Rightarrow> cell \<Rightarrow> row \<Rightarrow> exn + item" where
  \<comment> \<open>the dictionary \<open>item_dados\<close>, before the document is attached; \<open>index\<close> is the
      index label of the row\<close>
  "item_dados rt now modo_data data_custom index r =
     bind (val_devido rt r) (\<lambda>vd.
     bind (mais_1000 rt index) (\<lambda>numero.
     bind (fmt_moeda rt vd) (\<lambda>s_devido.
     bind (val_receb rt r) (\<lambda>vr.
     bind (fmt_moeda rt vr) (\<lambda>s_receb.
     bind (val_desc rt r) (\<lambda>vc.
     bind (fmt_moeda rt vc) (\<lambda>s_desc.
     Inr \<lparr>temp_id = index,
          nome_arquivo = ''NF-'' @ py_str rt numero @ '' - '' @
                         take 30 (py_str rt (nome_cliente r)),
          respFin = nome_cliente r,
          origem = row_get r ''Origem'' (PyStr ''-''),
          cpf = py_or (map_of r ''CPF/CNPJ'') (py_or (map_of r ''CPF'') (PyStr ''-'')),
          titulo = row_get r titulo_key (PyStr servico),
          especie = row_get r especie_key (PyStr ''NF-e''),
          vDevido = s_devido,
          vReceb = s_receb,
          vDesc = s_desc,
          pContas = row_get r ''P. Contas'' (PyStr ''Fidelizado''),
          cpfResp = row_get r ''CPF Resp'' (row_get r ''CPF/CNPJ'' (PyStr ''-'')),
          data = data_emissao rt now modo_data data_custom r,
          venc = py_str rt (row_get r ''Venc'' (PyStr (strftime_dmy now))),
          arquivo = []\<rparr>)))))))"

definition descricao :: "pyrt \<Rightarrow> row \<Rightarrow> string" where
  "descricao rt r =
     py_str rt (row_get r especie_key (PyStr servico)) @ '' - '' @
     py_str rt (row_get r titulo_key (PyStr []))"

definition planilha :: "pyrt \<Rightarrow> cell \<Rightarrow> row \<Rightarrow> item \<Rightarrow> exn + sheet" where
  \<comment> \<open>the cells of the worksheet that are filled from the row\<close>
  "planilha rt index r it =
     bind (val_devido rt r) (\<lambda>vd.
     bind (mais_1000 rt index) (\<lambda>numero.
     bind (val_desc rt r) (\<lambda>vc.
     bind (py_sub rt vd vc) (\<lambda>liquido.
     Inr \<lparr>B4 = numero, D4 = data it, B8 = nome_cliente r, B9 = cpf it,
          B10 = origem it, A15 = descricao rt r, B15 = venc it, C15 = vc, D15 = vd,
          D17 = liquido\<rparr>))))"

definition processar_linha ::
  "pyrt \<Rightarrow> env \<Rightarrow> datetime \<Rightarrow> string \<Rightarrow> string \<Rightarrow> cell \<Rightarrow> row \<Rightarrow> exn + item" where
  \<comment> \<open>the body of the loop over \<open>df.iterrows()\<close>, for the row \<open>r\<close> with the label \<open>index\<close>\<close>
  "processar_linha rt ev now modo_data data_custom index r =
     bind (item_dados rt now modo_data data_custom index r) (\<lambda>it.
     bind (planilha rt index r it) (\<lambda>ws.
     bind (render ev ws) (\<lambda>arquivo_base64.
     Inr (it\<lparr>arquivo := arquivo_base64\<rparr>))))"

section \<open>The request\<close>

text \<open>
  The uploaded file is modelled by its name and by what each reader of the table library
  makes of its bytes. The clock gives the date and time read while the row at position
  \<open>i\<close> is processed.
\<close>

record upload =
  filename :: string
  read_csv_utf8 :: "exn + table"
  read_csv_latin1 :: "exn + table"
  read_excel :: "exn + table"

record request =
  files_file :: "upload option"
  form_modoData :: "string option"
  form_dataCustom :: "string option"

datatype response = Json "item list" | Erro string nat

definition ler_arquivo :: "upload \<Rightarrow> exn + table" where
  "ler_arquivo f =
     (if endswith (filename f) ''.csv''
      then (case read_csv_utf8 f of Inr df \<Rightarrow> Inr df | Inl e \<Rightarrow> read_csv_latin1 f)
      else read_excel f)"

definition strip_columns :: "row \<Rightarrow> row" where
  \<comment> \<open>\<open>df.columns = df.columns.str.strip()\<close>, seen from a row\<close>
  "strip_columns r = map (\<lambda>(k, v). (py_strip k, v)) r"

definition strip_table :: "table \<Rightarrow> table" where
  "strip_table df = map (\<lambda>(index, r). (index, strip_columns r)) df"

fun processar_linhas ::
  "pyrt \<Rightarrow> env \<Rightarrow> (nat \<Rightarrow> datetime) \<Rightarrow> string \<Rightarrow> string \<Rightarrow> nat \<Rightarrow> table \<Rightarrow> exn + item list" where
  \<comment> \<open>the loop over \<open>df.iterrows()\<close>, from the position \<open>pos\<close> on:
      \<open>resultado_processamento\<close> grows by one record per row, in order\<close>
  "processar_linhas rt ev clock modo_data data_custom pos [] = Inr []"
| "processar_linhas rt ev clock modo_data data_custom pos ((index, r) # rs) =
     bind (processar_linha rt ev (clock pos) modo_data data_custom index r) (\<lambda>it.
     bind (processar_linhas rt ev clock modo_data data_custom (Suc pos) rs) (\<lambda>its.
     Inr (it # its)))"

definition processar_notas :: "pyrt \<Rightarrow> env \<Rightarrow> (nat \<Rightarrow> datetime) \<Rightarrow> request \<Rightarrow> response" where
  "processar_notas rt ev clock req =
     (case files_file req of
        None \<Rightarrow> Erro ''Nenhum arquivo enviado'' 400
      | Some f \<Rightarrow>
          (let modo_data = (case form_modoData req of None \<Rightarrow> ''atual'' | Some m \<Rightarrow> m);
               data_custom = (case form_dataCustom req of None \<Rightarrow> [] | Some c \<Rightarrow> c)
           in case bind (ler_arquivo f) (\<lambda>df.
                   bind (processar_linhas rt ev clock modo_data data_custom 0
                           (strip_table df)) (\<lambda>resultado.
                   case jsonify ev resultado of
                     Some e \<Rightarrow> Inl e
                   | None \<Rightarrow> Inr resultado))
              of Inl e \<Rightarrow> Erro (str_exn e) 500
               | Inr resultado \<Rightarrow> Json resultado))"

section \<open>Currency text and sign, as the specification words them\<close>

text \<open>
  The specification speaks of currency strings of the form \<open>R$ 1.234,56\<close>: an optional
  currency symbol and whitespace, digits with \<open>.\<close> as thousands separator, and an optional
  \<open>,\<close> followed by decimal digits. \<open>spec_currency_form\<close> recognises these texts and
  \<open>spec_currency_value\<close> is the number such a text denotes. They follow the specification, not
  the program. \<open>spec_nonneg\<close> is the comparison \<open>v >= 0\<close> of a number; \<open>literal_char\<close> holds of
  the characters that \<open>limpar_moeda\<close> removes or that occur in some text \<open>float\<close> accepts.
\<close>

fun spec_thousands :: "string \<Rightarrow> bool" where
  "spec_thousands [] = True"
| "spec_thousands (p # a # b # c # r) =
     (p = CHR ''.'' \<and> is_digit a \<and> is_digit b \<and> is_digit c \<and> spec_thousands r)"
| "spec_thousands _ = False"

definition spec_currency_form :: "string \<Rightarrow> bool" where
  "spec_currency_form s =
     (let t = py_strip s;
          u = (if take 2 t = ''R$'' then dropWhile is_space (drop 2 t) else t);
          ip = takeWhile (\<lambda>c. c \<noteq> CHR '','') u;
          fr = dropWhile (\<lambda>c. c \<noteq> CHR '','') u
      in takeWhile is_digit ip \<noteq> [] \<and> spec_thousands (dropWhile is_digit ip)
         \<and> (fr = [] \<or> (drop 1 fr \<noteq> [] \<and> list_all is_digit (drop 1 fr))))"

definition spec_currency_value :: "string \<Rightarrow> rat" where
  "spec_currency_value s =
     rat_of_nat (digits_val (filter is_digit s)) /
     10 ^ length (filter is_digit (dropWhile (\<lambda>c. c \<noteq> CHR '','') s))"

definition spec_nonneg :: "cell \<Rightarrow> bool" where
  "spec_nonneg v = (case v of
      PyBool b \<Rightarrow> True
    | PyInt i \<Rightarrow> 0 \<le> i
    | PyFloat f \<Rightarrow> (case f of Fin q \<Rightarrow> 0 \<le> q | NZero \<Rightarrow> True | PInf \<Rightarrow> True
                     | NInf \<Rightarrow> False | NaN \<Rightarrow> False)
    | PyStr s \<Rightarrow> False | PyDatetime d \<Rightarrow> False | NaT \<Rightarrow> False
    | NpInt i \<Rightarrow> 0 \<le> i | NpBool b \<Rightarrow> True)"

definition literal_char :: "char \<Rightarrow> bool" where
  "literal_char c = (is_digit c \<or> is_space c \<or> c \<in> set ''.,+-_R$''
                     \<or> lower_char c \<in> set ''einfatyn'')"

section \<open>Example values\<close>

text \<open>
  A runtime whose rounding is exact, a renderer that always succeeds and one that refuses
  the second document, a clock, and a table of two rows loaded from a spreadsheet file,
  with the range index. The last table is what the CSV reader makes of the two lines
  \<open>Nome,V. Devido\<close> and \<open>7,Maria Souza,"R$ 10,00"\<close>: the row has one field more than the
  header, so its first field is its label.
\<close>

definition exemplo_rt :: pyrt where
  "exemplo_rt = \<lparr>to_double = Fin, float_repr = (\<lambda>q. str_int \<lfloor>q\<rfloor> @ ''.0'')\<rparr>"

definition exemplo_env :: env where
  "exemplo_env = \<lparr>render = (\<lambda>ws. Inr ''UEsDBBQ=''), jsonify = (\<lambda>its. None)\<rparr>"

definition exemplo_env_falha :: env where
  "exemplo_env_falha =
     \<lparr>render = (\<lambda>ws. if B4 ws = PyInt 1001 then Inl (LibError ''IllegalCharacterError'')
                       else Inr ''UEsDBBQ=''),
      jsonify = (\<lambda>its. None)\<rparr>"

definition exemplo_now :: datetime where
  "exemplo_now = \<lparr>dt_year = 2026, dt_month = 11, dt_day = 4,
                   dt_hour = 10, dt_minute = 30, dt_second = 0, dt_micro = 0\<rparr>"

definition exemplo_df :: table where
  "exemplo_df =
     [(PyInt 0, [(''Nome '', PyStr ''Maria Souza''), (''V. Devido'', PyStr ''R$ 1.234,56''),
       (''V. Desc'', PyFloat (Fin (69 / 2)))]),
      (PyInt 1, [(''Nome '', PyStr ''Comercial de Alimentos Santa Luzia Ltda''),
       (''V. Devido'', PyInt 250), (''V. Desc'', PyStr ''n/d'')])]"

definition exemplo_upload :: upload where
  "exemplo_upload =
     \<lparr>filename = ''notas.xlsx'', read_csv_utf8 = Inl (LibError ''UnicodeDecodeError''),
      read_csv_latin1 = Inl (LibError ''ParserError''),
      read_excel = Inr exemplo_df\<rparr>"

definition exemplo_req :: "string option \<Rightarrow> string option \<Rightarrow> request" where
  "exemplo_req modo custom =
     \<lparr>files_file = Some exemplo_upload, form_modoData = modo, form_dataCustom = custom\<rparr>"

definition exemplo_rotulos :: table where
  "exemplo_rotulos =
     [(PyInt 7, [(''Nome'', PyStr ''Maria Souza''), (''V. Devido'', PyStr ''R$ 10,00'')])]"

definition exemplo_rotulos_req :: request where
  "exemplo_rotulos_req =
     \<lparr>files_file = Some \<lparr>filename = ''notas.csv'', read_csv_utf8 = Inr exemplo_rotulos,
                            read_csv_latin1 = Inr exemplo_rotulos,
                            read_excel = Inl (LibError ''BadZipFile'')\<rparr>,
      form_modoData = None, form_dataCustom = None\<rparr>"


section \<open>Evaluation lemmas\<close>

lemma fmt_2f_1234_56: "fmt_2f (Fin (30864 / 25)) = ''1,234.56''"
  by code_simp

lemma replace_1234_56: "py_replace ''.'' '','' ''R$ 1,234.56'' = ''R$ 1,234,56''"
  by code_simp

lemma fmt_2f_zero: "fmt_2f (Fin 0) = ''0.00''"
  by code_simp

lemma fmt_moeda_zero: "fmt_moeda rt (PyInt 0) = Inr ''R$ 0,00''"
  by (simp add: fmt_moeda_def as_float_def int_to_float_def to_float_def fmt_2f_zero)

lemma mais_1000_int: "mais_1000 rt (PyInt i) = Inr (PyInt (1000 + i))"
  by (simp add: mais_1000_def)

lemma limpar_moeda_number: "is_number v \<Longrightarrow> limpar_moeda rt v = Inr v"
  by (simp add: limpar_moeda_def)

lemma limpar_moeda_absent:
  "map_of r k = None \<Longrightarrow> limpar_moeda rt (row_get r k (PyInt 0)) = Inr (PyInt 0)"
  by (simp add: row_get_def limpar_moeda_def is_number_def)

section \<open>Display format of the amounts\<close>

text \<open>
  C2. The claim: the display string of an amount has two decimal digits, the prefix
  \<open>R$ \<close>, the thousands separator \<open>.\<close> and the decimal separator \<open>,\<close>, so that 1234.56
  is shown as \<open>R$ 1.234,56\<close>. The program formats with the separators \<open>,\<close> and \<open>.\<close> and
  then replaces every \<open>.\<close> by \<open>,\<close>, which leaves the thousands separator a comma: the
  amount 1234.56 is shown as \<open>R$ 1,234,56\<close>, in the expression itself and in the field
  \<open>vDevido\<close> of the record of a row with any integer label.
\<close>

theorem C2_format_1234_56:
  "fmt_moeda rt (PyFloat (Fin (30864 / 25))) = Inr ''R$ 1,234,56''
   \<and> bind (item_dados rt now modo_data data_custom (PyInt i)
              [(''V. Devido'', PyFloat (Fin (30864 / 25)))]) (\<lambda>it. Inr (vDevido it))
       = Inr ''R$ 1,234,56''"
  by (simp add: fmt_moeda_def as_float_def fmt_2f_1234_56 replace_1234_56 item_dados_def
      bind_def val_devido_def val_receb_def val_desc_def row_get_def limpar_moeda_def
      is_number_def int_to_float_def to_float_def fmt_2f_zero mais_1000_int)

section \<open>Customer name\<close>

text \<open>
  C4. The claim: the exact candidates are tried in their order, the first one present
  with a cell that is not missing gives the name, and the pass over normalised headers
  runs only if the first pass found nothing. The program decides whether to run the
  second pass by comparing the name with the placeholder \<open>Consumidor\<close>. For the row with
  the columns \<open>cliente\<close> = \<open>Bob\<close> and \<open>Nome\<close> = \<open>Consumidor\<close>, the first pass finds the
  cell under \<open>Nome\<close>, the second pass runs all the same, and the name is \<open>Bob\<close>.
\<close>

theorem C4_placeholder_collision:
  "busca_exata [(''cliente'', PyStr ''Bob''), (''Nome'', PyStr ''Consumidor'')] buscas
     = Some (PyStr ''Consumidor'')
   \<and> nome_cliente [(''cliente'', PyStr ''Bob''), (''Nome'', PyStr ''Consumidor'')]
     = PyStr ''Bob''"
  by code_simp

section \<open>Tax identifiers\<close>

text \<open>
  C5. The claim: when the row has no column \<open>CPF Resp\<close>, the field \<open>cpfResp\<close> is the
  resolved \<open>cpf\<close> (the column \<open>CPF/CNPJ\<close>, else the column \<open>CPF\<close>, else \<open>-\<close>). The
  program falls back to the column \<open>CPF/CNPJ\<close> and then to \<open>-\<close>; it does not try the
  column \<open>CPF\<close>. For the row whose only column is \<open>CPF\<close> = \<open>123\<close>, \<open>cpf\<close> is \<open>123\<close> and
  \<open>cpfResp\<close> is \<open>-\<close>.
\<close>

theorem C5_cpfResp_ignores_CPF:
  "bind (item_dados rt now modo_data data_custom (PyInt i) [(''CPF'', PyStr ''123'')])
     (\<lambda>it. Inr (cpf it, cpfResp it)) = Inr (PyStr ''123'', PyStr ''-'')"
  by (simp add: item_dados_def bind_def val_devido_def val_receb_def val_desc_def row_get_def
      limpar_moeda_def is_number_def fmt_moeda_zero py_or_def truthy_def mais_1000_int)

section \<open>The line item of the document\<close>

text \<open>
  C7. The claim: the description of the line item is the species, \<open> - \<close> and the title
  carried in the record, with the placeholders \<open>NF-e\<close> and \<open>Servi\<close>\<open>c-cedilla\<close>\<open>o\<close>. The
  document takes the two columns with other placeholders (\<open>Servi\<close>\<open>c-cedilla\<close>\<open>o\<close> for the
  species, the empty text for the title). For a row without the two columns, the record
  carries \<open>NF-e\<close> and \<open>Servi\<close>\<open>c-cedilla\<close>\<open>o\<close>, and the description in cell A15 is
  \<open>Servi\<close>\<open>c-cedilla\<close>\<open>o - \<close>, which is not the species, \<open> - \<close> and the title of the record.
\<close>

theorem C7_description_placeholders:
  "bind (item_dados rt now modo_data data_custom (PyInt i) [(''Nome'', PyStr ''Ana'')]) (\<lambda>it.
   bind (planilha rt (PyInt i) [(''Nome'', PyStr ''Ana'')] it) (\<lambda>ws.
   Inr (especie it, titulo it, A15 ws)))
   = Inr (PyStr ''NF-e'', PyStr servico, servico @ '' - '')
   \<and> servico @ '' - '' \<noteq> ''NF-e'' @ '' - '' @ servico"
  by (simp add: item_dados_def planilha_def bind_def val_devido_def val_receb_def val_desc_def
      row_get_def limpar_moeda_def is_number_def fmt_moeda_zero descricao_def py_str_def
      py_sub_def int_of_def titulo_key_def especie_key_def servico_def mais_1000_int)

section \<open>Sequencing and the loop over the rows\<close>

lemma bind_Inr_iff: "bind m f = Inr y \<longleftrightarrow> (\<exists>x. m = Inr x \<and> f x = Inr y)"
  by (cases m) (simp_all add: bind_def)

lemma item_dados_fields:
  assumes "item_dados rt now modo_data data_custom index r = Inr it"
  shows "temp_id it = index"
    and "\<exists>numero. mais_1000 rt index = Inr numero
           \<and> nome_arquivo it = ''NF-'' @ py_str rt numero @ '' - '' @
                                take 30 (py_str rt (nome_cliente r))"
    and "respFin it = nome_cliente r"
    and "data it = data_emissao rt now modo_data data_custom r"
  using assms by (auto simp: item_dados_def bind_Inr_iff)

lemma processar_linha_item:
  assumes "processar_linha rt ev now modo_data data_custom index r = Inr it"
  shows "\<exists>it0 b. item_dados rt now modo_data data_custom index r = Inr it0
                  \<and> it = it0\<lparr>arquivo := b\<rparr>"
  using assms by (auto simp: processar_linha_def bind_Inr_iff)

lemma processar_linha_fields:
  assumes "processar_linha rt ev now modo_data data_custom index r = Inr it"
  shows "temp_id it = index"
    and "\<exists>numero. mais_1000 rt index = Inr numero
           \<and> nome_arquivo it = ''NF-'' @ py_str rt numero @ '' - '' @
                                take 30 (py_str rt (nome_cliente r))"
    and "respFin it = nome_cliente r"
    and "data it = data_emissao rt now modo_data data_custom r"
proof -
  from processar_linha_item [OF assms] obtain it0 b where
    it0: "item_dados rt now modo_data data_custom index r = Inr it0" and
    it: "it = it0\<lparr>arquivo := b\<rparr>" by blast
  show "temp_id it = index" using item_dados_fields(1) [OF it0] it by simp
  show "\<exists>numero. mais_1000 rt index = Inr numero
           \<and> nome_arquivo it = ''NF-'' @ py_str rt numero @ '' - '' @
                                take 30 (py_str rt (nome_cliente r))"
    using item_dados_fields(2) [OF it0] it by simp
  show "respFin it = nome_cliente r" using item_dados_fields(3) [OF it0] it by simp
  show "data it = data_emissao rt now modo_data data_custom r"
    using item_dados_fields(4) [OF it0] it by simp
qed

lemma processar_linhas_rows:
  "processar_linhas rt ev clock modo_data data_custom pos rows = Inr items \<Longrightarrow>
   length items = length rows \<and>
   (\<forall>i<length rows. processar_linha rt ev (clock (pos + i)) modo_data data_custom
                       (fst (rows ! i)) (snd (rows ! i)) = Inr (items ! i))"
proof (induction rows arbitrary: pos items)
  case Nil
  then show ?case by simp
next
  case (Cons kr rs)
  obtain k r where kr: "kr = (k, r)" by (cases kr)
  from Cons.prems kr obtain it its where
    it: "processar_linha rt ev (clock pos) modo_data data_custom k r = Inr it" and
    its: "processar_linhas rt ev clock modo_data data_custom (Suc pos) rs = Inr its" and
    items: "items = it # its"
    by (auto simp: bind_Inr_iff)
  from Cons.IH [OF its] have len: "length its = length rs" and
    rest: "\<And>i. i < length rs \<Longrightarrow>
      processar_linha rt ev (clock (Suc pos + i)) modo_data data_custom
        (fst (rs ! i)) (snd (rs ! i)) = Inr (its ! i)"
    by auto
  show ?case
  proof (intro conjI allI impI)
    show "length items = length (kr # rs)" using len items by simp
  next
    fix i assume "i < length (kr # rs)"
    then show "processar_linha rt ev (clock (pos + i)) modo_data data_custom
                 (fst ((kr # rs) ! i)) (snd ((kr # rs) ! i)) = Inr (items ! i)"
      using it rest items kr by (cases i) auto
  qed
qed

lemma processar_linhas_abort:
  "i < length rows \<Longrightarrow>
   processar_linha rt ev (clock (pos + i)) modo_data data_custom
     (fst (rows ! i)) (snd (rows ! i)) = Inl e
   \<Longrightarrow> \<exists>e'. processar_linhas rt ev clock modo_data data_custom pos rows = Inl e'"
proof (induction rows arbitrary: pos i)
  case Nil
  then show ?case by simp
next
  case (Cons kr rs)
  obtain k r where kr: "kr = (k, r)" by (cases kr)
  show ?case
  proof (cases "processar_linha rt ev (clock pos) modo_data data_custom k r")
    case (Inl a)
    then show ?thesis by (simp add: bind_def kr)
  next
    case (Inr it)
    with Cons.prems kr obtain j where j: "i = Suc j" by (cases i) auto
    with Cons.prems have "j < length rs"
      "processar_linha rt ev (clock (Suc pos + j)) modo_data data_custom
         (fst (rs ! j)) (snd (rs ! j)) = Inl e" by auto
    from Cons.IH [OF this] obtain e' where
      "processar_linhas rt ev clock modo_data data_custom (Suc pos) rs = Inl e'" by blast
    with Inr show ?thesis by (simp add: bind_def kr)
  qed
qed

lemma processar_linhas_total:
  "(\<forall>i<length rows. \<exists>it. processar_linha rt ev (clock (pos + i)) modo_data data_custom
                       (fst (rows ! i)) (snd (rows ! i)) = Inr it) \<Longrightarrow>
   \<exists>items. processar_linhas rt ev clock modo_data data_custom pos rows = Inr items"
proof (induction rows arbitrary: pos)
  case Nil
  then show ?case by simp
next
  case (Cons kr rs)
  obtain k r where kr: "kr = (k, r)" by (cases kr)
  from Cons.prems [rule_format, of 0] kr obtain it where
    it: "processar_linha rt ev (clock pos) modo_data data_custom k r = Inr it" by auto
  have "\<forall>i<length rs. \<exists>it. processar_linha rt ev (clock (Suc pos + i)) modo_data data_custom
                       (fst (rs ! i)) (snd (rs ! i)) = Inr it"
  proof (intro allI impI)
    fix i assume "i < length rs"
    with Cons.prems [rule_format, of "Suc i"]
    show "\<exists>it. processar_linha rt ev (clock (Suc pos + i)) modo_data data_custom
                       (fst (rs ! i)) (snd (rs ! i)) = Inr it" by simp
  qed
  from Cons.IH [OF this] obtain its where
    "processar_linhas rt ev clock modo_data data_custom (Suc pos) rs = Inr its" by blast
  with it show ?case by (simp add: bind_def kr)
qed

lemma processar_linhas_first_error:
  "i < length rows \<Longrightarrow>
   (\<forall>j<i. \<exists>it. processar_linha rt ev (clock (pos + j)) modo_data data_custom
                   (fst (rows ! j)) (snd (rows ! j)) = Inr it) \<Longrightarrow>
   processar_linha rt ev (clock (pos + i)) modo_data data_custom
     (fst (rows ! i)) (snd (rows ! i)) = Inl e
   \<Longrightarrow> processar_linhas rt ev clock modo_data data_custom pos rows = Inl e"
proof (induction rows arbitrary: pos i)
  case Nil
  then show ?case by simp
next
  case (Cons kr rs)
  obtain k r where kr: "kr = (k, r)" by (cases kr)
  show ?case
  proof (cases i)
    case 0
    with Cons.prems show ?thesis by (simp add: bind_def kr)
  next
    case (Suc n)
    from Cons.prems(2) [rule_format, of 0] Suc kr obtain it where
      it: "processar_linha rt ev (clock pos) modo_data data_custom k r = Inr it" by auto
    have n: "n < length rs" using Cons.prems(1) Suc by simp
    have pre: "\<forall>j<n. \<exists>it. processar_linha rt ev (clock (Suc pos + j)) modo_data data_custom
                   (fst (rs ! j)) (snd (rs ! j)) = Inr it"
    proof (intro allI impI)
      fix j assume "j < n"
      then have "Suc j < i" using Suc by simp
      from Cons.prems(2) [rule_format, OF this]
      show "\<exists>it. processar_linha rt ev (clock (Suc pos + j)) modo_data data_custom
                   (fst (rs ! j)) (snd (rs ! j)) = Inr it" by simp
    qed
    have "processar_linha rt ev (clock (Suc pos + n)) modo_data data_custom
            (fst (rs ! n)) (snd (rs ! n)) = Inl e"
      using Cons.prems(3) Suc by simp
    from Cons.IH [OF n pre this] it show ?thesis by (simp add: bind_def kr)
  qed
qed

lemma strip_table_nth:
  "length (strip_table df) = length df"
  "i < length df \<Longrightarrow> fst (strip_table df ! i) = fst (df ! i)"
  "i < length df \<Longrightarrow> snd (strip_table df ! i) = strip_columns (snd (df ! i))"
  by (simp_all add: strip_table_def split_beta)

lemma processar_notas_Json:
  assumes "processar_notas rt ev clock req = Json items"
  shows "\<exists>f df. files_file req = Some f \<and> ler_arquivo f = Inr df
           \<and> processar_linhas rt ev clock
                (case form_modoData req of None \<Rightarrow> ''atual'' | Some m \<Rightarrow> m)
                (case form_dataCustom req of None \<Rightarrow> [] | Some c \<Rightarrow> c) 0
                (strip_table df) = Inr items
           \<and> jsonify ev items = None"
  using assms
  by (auto simp: processar_notas_def Let_def bind_def split: option.splits sum.splits)

lemma strptime_2024_03_05:
  "strptime_ymd ''2024-03-05'' = Inr \<lparr>dt_year = 2024, dt_month = 3, dt_day = 5,
     dt_hour = 0, dt_minute = 0, dt_second = 0, dt_micro = 0\<rparr>"
  by code_simp

lemma strftime_2024_03_05:
  "strftime_dmy \<lparr>dt_year = 2024, dt_month = 3, dt_day = 5,
     dt_hour = 0, dt_minute = 0, dt_second = 0, dt_micro = 0\<rparr> = ''05/03/2024''"
  by code_simp

lemma strptime_not_a_date: "strptime_ymd ''not-a-date'' = Inl ValueError"
  by code_simp

lemma data_emissao_2024_03_05:
  "data_emissao rt now ''escolher'' ''2024-03-05'' r = ''05/03/2024''"
  by (simp add: data_emissao_def strptime_2024_03_05 strftime_2024_03_05)

lemma data_emissao_atual:
  "modo_data \<noteq> ''escolher'' \<Longrightarrow> modo_data \<noteq> ''venda'' \<Longrightarrow>
   data_emissao rt now modo_data data_custom r = strftime_dmy now"
  by (simp add: data_emissao_def)

lemma data_emissao_escolher_vazio:
  "data_emissao rt now ''escolher'' [] r = strftime_dmy now"
  by (simp add: data_emissao_def)

lemma data_emissao_escolher_falha:
  "strptime_ymd data_custom = Inl e \<Longrightarrow>
   data_emissao rt now ''escolher'' data_custom r = strftime_dmy now"
  by (simp add: data_emissao_def)

lemma processar_linha_cong:
  "data_emissao rt now m1 c1 r = data_emissao rt now m2 c2 r \<Longrightarrow>
   processar_linha rt ev now m1 c1 index r = processar_linha rt ev now m2 c2 index r"
  by (simp add: processar_linha_def item_dados_def)

lemma processar_linhas_cong:
  "(\<And>now r. data_emissao rt now m1 c1 r = data_emissao rt now m2 c2 r) \<Longrightarrow>
   processar_linhas rt ev clock m1 c1 index rows = processar_linhas rt ev clock m2 c2 index rows"
proof (induction rows arbitrary: index)
  case Nil
  then show ?case by simp
next
  case (Cons kr rs)
  obtain k r where kr: "kr = (k, r)" by (cases kr)
  have "processar_linha rt ev (clock index) m1 c1 k r
        = processar_linha rt ev (clock index) m2 c2 k r"
    by (rule processar_linha_cong) (rule Cons.prems)
  moreover have "processar_linhas rt ev clock m1 c1 (Suc index) rs
        = processar_linhas rt ev clock m2 c2 (Suc index) rs"
    by (rule Cons.IH) (rule Cons.prems)
  ultimately show ?case by (simp add: kr)
qed


lemma ord_char_of: "n < 256 \<Longrightarrow> ord (char_of n) = n"
  by (simp add: ord_def)

lemma str_nat_digits: "list_all is_digit (str_nat n)"
proof (induction n rule: str_nat.induct)
  case (1 n)
  show ?case
  proof (cases "n < 10")
    case True
    then show ?thesis by (subst str_nat.simps) (simp add: is_digit_def ord_char_of)
  next
    case False
    have "n mod 10 < 10" by simp
    then have "is_digit (char_of (48 + n mod 10))"
      by (simp add: is_digit_def ord_char_of)
    with False 1 show ?thesis by (subst str_nat.simps) simp
  qed
qed

lemma length_str_nat: "0 < k \<Longrightarrow> n < 10 ^ k \<Longrightarrow> length (str_nat n) \<le> k"
proof (induction k arbitrary: n)
  case 0
  then show ?case by simp
next
  case (Suc k)
  show ?case
  proof (cases "n < 10")
    case True
    then show ?thesis by (subst str_nat.simps) simp
  next
    case False
    with Suc.prems have k: "0 < k" by (cases k) auto
    from Suc.prems have "n div 10 < 10 ^ k" by (simp add: less_mult_imp_div_less mult.commute)
    from Suc.IH [OF k this] False show ?thesis by (subst str_nat.simps) simp
  qed
qed

lemma length_zfill: "length s \<le> w \<Longrightarrow> length (zfill w s) = w"
  by (simp add: zfill_def)

lemma zfill_digits: "list_all is_digit s \<Longrightarrow> list_all is_digit (zfill w s)"
  by (auto simp: zfill_def list_all_iff is_digit_def ord_def)

lemma strftime_dmy_shape:
  assumes "dt_day d < 100" "dt_month d < 100" "dt_year d < 10000"
  shows "\<exists>dd mm yyyy. strftime_dmy d = dd @ ''/'' @ mm @ ''/'' @ yyyy
           \<and> length dd = 2 \<and> length mm = 2 \<and> length yyyy = 4
           \<and> list_all is_digit (dd @ mm @ yyyy)"
proof -
  have "length (str_nat (dt_day d)) \<le> 2" "length (str_nat (dt_month d)) \<le> 2"
    "length (str_nat (dt_year d)) \<le> 4"
    using assms by (auto intro!: length_str_nat)
  then have "length (zfill 2 (str_nat (dt_day d))) = 2"
    "length (zfill 2 (str_nat (dt_month d))) = 2"
    "length (zfill 4 (str_nat (dt_year d))) = 4"
    by (auto intro!: length_zfill)
  moreover have "list_all is_digit (zfill 2 (str_nat (dt_day d)) @
      zfill 2 (str_nat (dt_month d)) @ zfill 4 (str_nat (dt_year d)))"
    by (simp add: zfill_digits str_nat_digits)
  ultimately show ?thesis unfolding strftime_dmy_def by blast
qed

lemma ler_exemplo: "ler_arquivo exemplo_upload = Inr exemplo_df"
  by (simp add: ler_arquivo_def exemplo_upload_def endswith_def)

lemma exemplo_nomes:
  "(case processar_notas exemplo_rt exemplo_env (\<lambda>i. exemplo_now) (exemplo_req None None) of
      Json its \<Rightarrow> Some (map nome_arquivo its, map data its, map vDevido its) | Erro m s \<Rightarrow> None)
   = Some ([''NF-1000 - Maria Souza'', ''NF-1001 - Comercial de Alimentos Santa L''],
           [''04/11/2026'', ''04/11/2026''], [''R$ 1,234,56'', ''R$ 250,00''])"
  by code_simp

lemma exemplo_falha:
  "processar_linha exemplo_rt exemplo_env_falha exemplo_now ''atual'' [] (PyInt 1)
     (strip_columns (snd (exemplo_df ! 1))) = Inl (LibError ''IllegalCharacterError'')"
  by code_simp

lemma exemplo_escolher:
  "(case processar_linha exemplo_rt exemplo_env exemplo_now ''escolher'' ''2024-03-05'' (PyInt 0)
     (snd (exemplo_df ! 0)) of Inr it \<Rightarrow> Some (data it) | Inl e \<Rightarrow> None) = Some ''05/03/2024''"
  by code_simp

lemma exemplo_linhas_ok:
  "\<exists>it. processar_linha exemplo_rt exemplo_env exemplo_now ''atual'' [] (PyInt 0)
           (strip_columns (snd (exemplo_df ! 0))) = Inr it"
  "\<exists>it. processar_linha exemplo_rt exemplo_env exemplo_now ''atual'' [] (PyInt 1)
           (strip_columns (snd (exemplo_df ! 1))) = Inr it"
  "\<exists>it. processar_linha exemplo_rt exemplo_env_falha exemplo_now ''atual'' [] (PyInt 0)
           (strip_columns (snd (exemplo_df ! 0))) = Inr it"
proof -
  have "(case processar_linha exemplo_rt exemplo_env exemplo_now ''atual'' [] (PyInt 0)
           (strip_columns (snd (exemplo_df ! 0))) of Inr it \<Rightarrow> True | Inl e \<Rightarrow> False)"
    by code_simp
  then show "\<exists>it. processar_linha exemplo_rt exemplo_env exemplo_now ''atual'' [] (PyInt 0)
           (strip_columns (snd (exemplo_df ! 0))) = Inr it"
    by (simp split: sum.splits)
  have "(case processar_linha exemplo_rt exemplo_env exemplo_now ''atual'' [] (PyInt 1)
           (strip_columns (snd (exemplo_df ! 1))) of Inr it \<Rightarrow> True | Inl e \<Rightarrow> False)"
    by code_simp
  then show "\<exists>it. processar_linha exemplo_rt exemplo_env exemplo_now ''atual'' [] (PyInt 1)
           (strip_columns (snd (exemplo_df ! 1))) = Inr it"
    by (simp split: sum.splits)
  have "(case processar_linha exemplo_rt exemplo_env_falha exemplo_now ''atual'' [] (PyInt 0)
           (strip_columns (snd (exemplo_df ! 0))) of Inr it \<Rightarrow> True | Inl e \<Rightarrow> False)"
    by code_simp
  then show "\<exists>it. processar_linha exemplo_rt exemplo_env_falha exemplo_now ''atual'' [] (PyInt 0)
           (strip_columns (snd (exemplo_df ! 0))) = Inr it"
    by (simp split: sum.splits)
qed

lemma exemplo_range: "range_index exemplo_df"
  by code_simp

lemma exemplo_nome_arquivo:
  "''NF-'' @ str_nat (1000 + 0) @ '' - '' @
     take 30 (py_str exemplo_rt (nome_cliente (strip_columns (snd (exemplo_df ! 0)))))
   = ''NF-1000 - Maria Souza''"
  "''NF-'' @ str_nat (1000 + 1) @ '' - '' @
     take 30 (py_str exemplo_rt (nome_cliente (strip_columns (snd (exemplo_df ! 1)))))
   = ''NF-1001 - Comercial de Alimentos Santa L''"
  by code_simp+

section \<open>Custom date\<close>

text \<open>
  C6. With the date mode \<open>escolher\<close> and the custom date \<open>2024-03-05\<close>, the emission
  date of every row that is produced is \<open>05/03/2024\<close>. The text \<open>not-a-date\<close> does
  not parse; and for every custom date that does not parse, the emission date is the one
  of the mode \<open>atual\<close> at the same instant, each row gives the same result as under
  \<open>atual\<close>, and so does the whole request: the failure raises no error.
\<close>

theorem C6_custom_date:
  "(processar_linha rt ev now ''escolher'' ''2024-03-05'' index r = Inr it
      \<longrightarrow> data it = ''05/03/2024'')
   \<and> strptime_ymd ''not-a-date'' = Inl ValueError
   \<and> (strptime_ymd c = Inl e \<longrightarrow>
        data_emissao rt now ''escolher'' c r = data_emissao rt now ''atual'' c r
        \<and> processar_linha rt ev now ''escolher'' c index r
          = processar_linha rt ev now ''atual'' c index r
        \<and> processar_notas rt ev clock
            (req\<lparr>form_modoData := Some ''escolher'', form_dataCustom := Some c\<rparr>)
          = processar_notas rt ev clock
            (req\<lparr>form_modoData := Some ''atual'', form_dataCustom := Some c\<rparr>))"
proof (intro conjI impI)
  assume "processar_linha rt ev now ''escolher'' ''2024-03-05'' index r = Inr it"
  then show "data it = ''05/03/2024''"
    by (simp add: processar_linha_fields(4) data_emissao_2024_03_05)
next
  show "strptime_ymd ''not-a-date'' = Inl ValueError" by (rule strptime_not_a_date)
next
  assume f: "strptime_ymd c = Inl e"
  then have eq: "\<And>now r. data_emissao rt now ''escolher'' c r = data_emissao rt now ''atual'' c r"
    by (simp add: data_emissao_escolher_falha data_emissao_atual)
  show "data_emissao rt now ''escolher'' c r = data_emissao rt now ''atual'' c r"
    by (rule eq)
  show "processar_linha rt ev now ''escolher'' c index r
          = processar_linha rt ev now ''atual'' c index r"
    by (rule processar_linha_cong) (rule eq)
  have "\<And>rows. processar_linhas rt ev clock ''escolher'' c 0 rows
        = processar_linhas rt ev clock ''atual'' c 0 rows"
    by (rule processar_linhas_cong) (rule eq)
  then show "processar_notas rt ev clock
            (req\<lparr>form_modoData := Some ''escolher'', form_dataCustom := Some c\<rparr>)
          = processar_notas rt ev clock
            (req\<lparr>form_modoData := Some ''atual'', form_dataCustom := Some c\<rparr>)"
    by (cases "files_file req") (simp_all add: processar_notas_def Let_def)
qed

theorem C6_witness:
  "(\<exists>it. processar_linha exemplo_rt exemplo_env exemplo_now ''escolher'' ''2024-03-05''
            (PyInt 0) (snd (exemplo_df ! 0)) = Inr it \<and> data it = ''05/03/2024'')
   \<and> strptime_ymd ''not-a-date'' = Inl ValueError
   \<and> processar_notas exemplo_rt exemplo_env (\<lambda>i. exemplo_now)
        (exemplo_req (Some ''escolher'') (Some ''not-a-date''))
      = processar_notas exemplo_rt exemplo_env (\<lambda>i. exemplo_now)
        (exemplo_req (Some ''atual'') (Some ''not-a-date''))"
proof -
  obtain it where
    it: "processar_linha exemplo_rt exemplo_env exemplo_now ''escolher'' ''2024-03-05''
           (PyInt 0) (snd (exemplo_df ! 0)) = Inr it"
    using exemplo_escolher
    by (cases "processar_linha exemplo_rt exemplo_env exemplo_now ''escolher'' ''2024-03-05''
           (PyInt 0) (snd (exemplo_df ! 0))") auto
  note c6 = C6_custom_date [of exemplo_rt exemplo_env exemplo_now "PyInt 0"
      "snd (exemplo_df ! 0)" it
      "''not-a-date''" ValueError "\<lambda>i. exemplo_now" "exemplo_req None None"]
  from c6 it have d: "data it = ''05/03/2024''" by blast
  from c6 have f: "strptime_ymd ''not-a-date'' = Inl ValueError" by blast
  with c6 have "processar_notas exemplo_rt exemplo_env (\<lambda>i. exemplo_now)
            ((exemplo_req None None)\<lparr>form_modoData := Some ''escolher'',
               form_dataCustom := Some ''not-a-date''\<rparr>)
          = processar_notas exemplo_rt exemplo_env (\<lambda>i. exemplo_now)
            ((exemplo_req None None)\<lparr>form_modoData := Some ''atual'',
               form_dataCustom := Some ''not-a-date''\<rparr>)" by blast
  then have "processar_notas exemplo_rt exemplo_env (\<lambda>i. exemplo_now)
        (exemplo_req (Some ''escolher'') (Some ''not-a-date''))
      = processar_notas exemplo_rt exemplo_env (\<lambda>i. exemplo_now)
        (exemplo_req (Some ''atual'') (Some ''not-a-date''))"
    by (simp add: exemplo_req_def)
  with it d f show ?thesis by blast
qed

section \<open>One record per row\<close>

text \<open>
  C8. The claim: one record per row of the input, in the order of the rows, and the record
  of the zero-based row \<open>i\<close> has the display name \<open>NF-\<close>, the number \<open>1000 + i\<close>, \<open> - \<close>
  and the first 30 characters of the customer name. The first part holds. The number is
  built from the index label of the row, not from its position: when the request succeeds,
  the record at position \<open>i\<close> has the label of row \<open>i\<close> as its index, carries the customer
  name resolved from row \<open>i\<close>, and its display name is \<open>NF-\<close>, the text of \<open>1000 + label\<close>,
  \<open> - \<close> and the first 30 characters of the text of that name; for an integer label \<open>k\<close>
  the number is \<open>1000 + k\<close>. With the range index the label of row \<open>i\<close> is \<open>i\<close>, and the
  claim holds as it stands. A table whose first row has the label 7 gives the index 7
  and the display name \<open>NF-1007 - Maria Souza\<close> for the row 0.
\<close>

theorem C8_one_record_per_row:
  assumes "processar_notas rt ev clock req = Json items"
  shows "\<exists>f df. files_file req = Some f \<and> ler_arquivo f = Inr df
           \<and> length items = length df
           \<and> (\<forall>i<length df.
                 temp_id (items ! i) = fst (df ! i)
               \<and> respFin (items ! i) = nome_cliente (strip_columns (snd (df ! i)))
               \<and> (\<exists>numero. mais_1000 rt (fst (df ! i)) = Inr numero
                    \<and> nome_arquivo (items ! i)
                        = ''NF-'' @ py_str rt numero @ '' - '' @
                          take 30 (py_str rt (nome_cliente (strip_columns (snd (df ! i))))))
               \<and> (\<forall>k. fst (df ! i) = PyInt k \<longrightarrow>
                    nome_arquivo (items ! i)
                      = ''NF-'' @ str_int (1000 + k) @ '' - '' @
                        take 30 (py_str rt (nome_cliente (strip_columns (snd (df ! i)))))))
           \<and> (range_index df \<longrightarrow>
                (\<forall>i<length df.
                    temp_id (items ! i) = PyInt (int i)
                  \<and> nome_arquivo (items ! i)
                      = ''NF-'' @ str_nat (1000 + i) @ '' - '' @
                        take 30 (py_str rt (nome_cliente (strip_columns (snd (df ! i)))))))"
proof -
  from processar_notas_Json [OF assms] obtain f df where
    f: "files_file req = Some f" and df: "ler_arquivo f = Inr df" and
    loop: "processar_linhas rt ev clock
                (case form_modoData req of None \<Rightarrow> ''atual'' | Some m \<Rightarrow> m)
                (case form_dataCustom req of None \<Rightarrow> [] | Some c \<Rightarrow> c) 0
                (strip_table df) = Inr items"
    by blast
  let ?nome = "\<lambda>i. take 30 (py_str rt (nome_cliente (strip_columns (snd (df ! i)))))"
  from processar_linhas_rows [OF loop] have len: "length items = length df" and
    rows: "\<And>i. i < length df \<Longrightarrow>
      processar_linha rt ev (clock i)
        (case form_modoData req of None \<Rightarrow> ''atual'' | Some m \<Rightarrow> m)
        (case form_dataCustom req of None \<Rightarrow> [] | Some c \<Rightarrow> c) (fst (df ! i))
        (strip_columns (snd (df ! i))) = Inr (items ! i)"
    by (simp_all add: strip_table_nth)
  have a: "temp_id (items ! i) = fst (df ! i)" if "i < length df" for i
    using processar_linha_fields(1) [OF rows [OF that]] .
  have b: "respFin (items ! i) = nome_cliente (strip_columns (snd (df ! i)))"
    if "i < length df" for i
    using processar_linha_fields(3) [OF rows [OF that]] .
  have c: "\<exists>numero. mais_1000 rt (fst (df ! i)) = Inr numero
             \<and> nome_arquivo (items ! i) = ''NF-'' @ py_str rt numero @ '' - '' @ ?nome i"
    if "i < length df" for i
    using processar_linha_fields(2) [OF rows [OF that]] .
  have d: "nome_arquivo (items ! i) = ''NF-'' @ str_int (1000 + k) @ '' - '' @ ?nome i"
    if "i < length df" and "fst (df ! i) = PyInt k" for i k
    using c [OF that(1)] that(2) by (auto simp: mais_1000_def py_str_def)
  have e: "temp_id (items ! i) = PyInt (int i)
           \<and> nome_arquivo (items ! i) = ''NF-'' @ str_nat (1000 + i) @ '' - '' @ ?nome i"
    if r: "range_index df" and i: "i < length df" for i
  proof -
    have "fst (df ! i) = map fst df ! i" using i by simp
    also have "\<dots> = PyInt (int i)" using r i unfolding range_index_def by simp
    finally have l: "fst (df ! i) = PyInt (int i)" .
    have "str_int (1000 + int i) = str_nat (1000 + i)"
      by (simp add: str_int_def nat_add_distrib)
    with a [OF i] d [OF i l] l show ?thesis by simp
  qed
  show ?thesis
    using f df len a b c d e by (intro exI [of _ f] exI [of _ df] conjI allI impI) auto
qed

theorem C8_witness:
  "range_index exemplo_df
   \<and> (\<exists>items. processar_notas exemplo_rt exemplo_env (\<lambda>i. exemplo_now) (exemplo_req None None)
             = Json items
        \<and> length items = 2
        \<and> temp_id (items ! 0) = PyInt 0 \<and> temp_id (items ! 1) = PyInt 1
        \<and> nome_arquivo (items ! 0) = ''NF-1000 - Maria Souza''
        \<and> nome_arquivo (items ! 1) = ''NF-1001 - Comercial de Alimentos Santa L'')"
proof -
  obtain items where
    j: "processar_notas exemplo_rt exemplo_env (\<lambda>i. exemplo_now) (exemplo_req None None)
        = Json items"
    using exemplo_nomes
    by (cases "processar_notas exemplo_rt exemplo_env (\<lambda>i. exemplo_now) (exemplo_req None None)")
       auto
  let ?nome = "\<lambda>df i. take 30 (py_str exemplo_rt (nome_cliente (strip_columns (snd (df ! i)))))"
  from C8_one_record_per_row [OF j] obtain f df where
    f: "files_file (exemplo_req None None) = Some f" and df: "ler_arquivo f = Inr df" and
    len: "length items = length df" and
    r: "range_index df \<longrightarrow>
          (\<forall>i<length df. temp_id (items ! i) = PyInt (int i)
             \<and> nome_arquivo (items ! i) = ''NF-'' @ str_nat (1000 + i) @ '' - '' @ ?nome df i)"
    by blast
  from f have "f = exemplo_upload" by (simp add: exemplo_req_def)
  with df ler_exemplo have e: "df = exemplo_df" by simp
  have ri: "range_index exemplo_df" by (rule exemplo_range)
  have l2: "length exemplo_df = 2" by (simp add: exemplo_df_def)
  from len e l2 have n: "length items = 2" by simp
  from r e ri l2 have
    r0: "temp_id (items ! 0) = PyInt (int 0)
         \<and> nome_arquivo (items ! 0) = ''NF-'' @ str_nat (1000 + 0) @ '' - '' @ ?nome exemplo_df 0"
    and
    r1: "temp_id (items ! 1) = PyInt (int 1)
         \<and> nome_arquivo (items ! 1) = ''NF-'' @ str_nat (1000 + 1) @ '' - '' @ ?nome exemplo_df 1"
    by simp_all
  have t0: "temp_id (items ! 0) = PyInt 0" using r0 by simp
  have t1: "temp_id (items ! 1) = PyInt 1" using r1 by simp
  have n0: "nome_arquivo (items ! 0) = ''NF-1000 - Maria Souza''"
    using r0 exemplo_nome_arquivo(1) by simp
  have n1: "nome_arquivo (items ! 1) = ''NF-1001 - Comercial de Alimentos Santa L''"
    using r1 exemplo_nome_arquivo(2) by simp
  from ri j n t0 t1 n0 n1 show ?thesis by (intro conjI exI [of _ items])
qed

theorem C8_counterexample:
  "(case processar_notas exemplo_rt exemplo_env (\<lambda>i. exemplo_now) exemplo_rotulos_req of
      Json its \<Rightarrow> Some (map temp_id its, map nome_arquivo its) | Erro m s \<Rightarrow> None)
   = Some ([PyInt 7], [''NF-1007 - Maria Souza''])
   \<and> ''NF-1007 - Maria Souza'' \<noteq> ''NF-'' @ str_nat (1000 + 0) @ '' - '' @ take 30 ''Maria Souza''
   \<and> PyInt 7 \<noteq> PyInt 0"
  by code_simp

section \<open>All or nothing\<close>

text \<open>
  C9. A request gives either the records of all the rows (one per row, each the result of
  processing its row), or one error message with the status 400 or 500 and no record.
  When processing any single row raises, the request gives an error message with the
  status 500, and the message is that of the first row that raises. When the file loads,
  every row is processed without an exception and the serialisation does not raise, the
  request gives the records.
\<close>

theorem C9_all_or_nothing:
  "((\<exists>items f df. processar_notas rt ev clock req = Json items
        \<and> files_file req = Some f \<and> ler_arquivo f = Inr df
        \<and> length items = length df
        \<and> (\<forall>i<length df. processar_linha rt ev (clock i)
               (case form_modoData req of None \<Rightarrow> ''atual'' | Some m \<Rightarrow> m)
               (case form_dataCustom req of None \<Rightarrow> [] | Some c \<Rightarrow> c) (fst (df ! i))
               (strip_columns (snd (df ! i))) = Inr (items ! i)))
    \<or> (\<exists>msg. processar_notas rt ev clock req = Erro msg 400)
    \<or> (\<exists>msg. processar_notas rt ev clock req = Erro msg 500))
   \<and> (files_file req = Some f \<longrightarrow> ler_arquivo f = Inr df \<longrightarrow> i < length df
      \<longrightarrow> processar_linha rt ev (clock i)
               (case form_modoData req of None \<Rightarrow> ''atual'' | Some m \<Rightarrow> m)
               (case form_dataCustom req of None \<Rightarrow> [] | Some c \<Rightarrow> c) (fst (df ! i))
               (strip_columns (snd (df ! i))) = Inl e
      \<longrightarrow> (\<exists>msg. processar_notas rt ev clock req = Erro msg 500)
          \<and> ((\<forall>j<i. \<exists>it. processar_linha rt ev (clock j)
                 (case form_modoData req of None \<Rightarrow> ''atual'' | Some m \<Rightarrow> m)
                 (case form_dataCustom req of None \<Rightarrow> [] | Some c \<Rightarrow> c) (fst (df ! j))
                 (strip_columns (snd (df ! j))) = Inr it)
              \<longrightarrow> processar_notas rt ev clock req = Erro (str_exn e) 500))
   \<and> (files_file req = Some f \<longrightarrow> ler_arquivo f = Inr df
      \<longrightarrow> (\<forall>i<length df. \<exists>it. processar_linha rt ev (clock i)
               (case form_modoData req of None \<Rightarrow> ''atual'' | Some m \<Rightarrow> m)
               (case form_dataCustom req of None \<Rightarrow> [] | Some c \<Rightarrow> c) (fst (df ! i))
               (strip_columns (snd (df ! i))) = Inr it)
      \<longrightarrow> (\<forall>its. jsonify ev its = None)
      \<longrightarrow> (\<exists>items. processar_notas rt ev clock req = Json items))"
proof -
  let ?m = "case form_modoData req of None \<Rightarrow> ''atual'' | Some m \<Rightarrow> m"
  let ?c = "case form_dataCustom req of None \<Rightarrow> [] | Some c \<Rightarrow> c"
  let ?linha = "\<lambda>df i. processar_linha rt ev (clock i) ?m ?c (fst (df ! i))
                         (strip_columns (snd (df ! i)))"
  have A: "(\<exists>items f df. processar_notas rt ev clock req = Json items
        \<and> files_file req = Some f \<and> ler_arquivo f = Inr df
        \<and> length items = length df
        \<and> (\<forall>i<length df. ?linha df i = Inr (items ! i)))
    \<or> (\<exists>msg. processar_notas rt ev clock req = Erro msg 400)
    \<or> (\<exists>msg. processar_notas rt ev clock req = Erro msg 500)"
  proof (cases "processar_notas rt ev clock req")
    case (Json items)
    from processar_notas_Json [OF Json] obtain f df where
      f: "files_file req = Some f" and df: "ler_arquivo f = Inr df" and
      loop: "processar_linhas rt ev clock ?m ?c 0 (strip_table df) = Inr items"
      by blast
    from processar_linhas_rows [OF loop] have "length items = length df"
      "\<forall>i<length df. ?linha df i = Inr (items ! i)"
      by (simp_all add: strip_table_nth)
    with f df Json show ?thesis by blast
  next
    case (Erro msg status)
    then have "status = 400 \<or> status = 500"
      by (auto simp: processar_notas_def Let_def split: option.splits sum.splits)
    with Erro show ?thesis by auto
  qed
  have B: "\<exists>msg. processar_notas rt ev clock req = Erro msg 500"
    if f: "files_file req = Some f" and df: "ler_arquivo f = Inr df" and i: "i < length df"
      and fail: "?linha df i = Inl e"
  proof -
    from i fail have "\<exists>e'. processar_linhas rt ev clock ?m ?c 0 (strip_table df) = Inl e'"
      by (intro processar_linhas_abort [where i = i and e = e])
         (simp_all add: strip_table_nth)
    with f df show ?thesis by (auto simp: processar_notas_def Let_def bind_def)
  qed
  have C: "processar_notas rt ev clock req = Erro (str_exn e) 500"
    if f: "files_file req = Some f" and df: "ler_arquivo f = Inr df" and i: "i < length df"
      and fail: "?linha df i = Inl e"
      and pre: "\<forall>j<i. \<exists>it. ?linha df j = Inr it"
  proof -
    have "processar_linhas rt ev clock ?m ?c 0 (strip_table df) = Inl e"
      using i fail pre by (intro processar_linhas_first_error [where i = i])
         (simp_all add: strip_table_nth)
    with f df show ?thesis by (simp add: processar_notas_def Let_def bind_def)
  qed
  have D: "\<exists>items. processar_notas rt ev clock req = Json items"
    if f: "files_file req = Some f" and df: "ler_arquivo f = Inr df"
      and ok: "\<forall>i<length df. \<exists>it. ?linha df i = Inr it"
      and js: "\<forall>its. jsonify ev its = None"
  proof -
    have "\<exists>items. processar_linhas rt ev clock ?m ?c 0 (strip_table df) = Inr items"
      using ok by (intro processar_linhas_total) (simp add: strip_table_nth)
    with f df js show ?thesis by (auto simp: processar_notas_def Let_def bind_def)
  qed
  show ?thesis using A B C D by blast
qed

theorem C9_witness:
  "processar_linha exemplo_rt exemplo_env_falha exemplo_now ''atual'' [] (PyInt 1)
     (strip_columns (snd (exemplo_df ! 1))) = Inl (LibError ''IllegalCharacterError'')
   \<and> processar_notas exemplo_rt exemplo_env_falha (\<lambda>i. exemplo_now) (exemplo_req None None)
     = Erro ''IllegalCharacterError'' 500
   \<and> (\<exists>items. processar_notas exemplo_rt exemplo_env (\<lambda>i. exemplo_now) (exemplo_req None None)
               = Json items)"
proof -
  have req: "files_file (exemplo_req None None) = Some exemplo_upload"
    "(case form_modoData (exemplo_req None None) of None \<Rightarrow> ''atual'' | Some m \<Rightarrow> m) = ''atual''"
    "(case form_dataCustom (exemplo_req None None) of None \<Rightarrow> [] | Some c \<Rightarrow> c) = []"
    by (simp_all add: exemplo_req_def)
  have len: "length exemplo_df = 2" by (simp add: exemplo_df_def)
  have lab: "fst (exemplo_df ! 0) = PyInt 0" "fst (exemplo_df ! 1) = PyInt 1"
    by (simp_all add: exemplo_df_def)
  have pre: "\<forall>j<1. \<exists>it. processar_linha exemplo_rt exemplo_env_falha exemplo_now ''atual'' []
                 (fst (exemplo_df ! j)) (strip_columns (snd (exemplo_df ! j))) = Inr it"
    using exemplo_linhas_ok(3) lab by simp
  note falha = C9_all_or_nothing [of exemplo_rt exemplo_env_falha "\<lambda>i. exemplo_now"
      "exemplo_req None None" exemplo_upload exemplo_df 1 "LibError ''IllegalCharacterError''"]
  have a: "processar_notas exemplo_rt exemplo_env_falha (\<lambda>i. exemplo_now)
             (exemplo_req None None) = Erro (str_exn (LibError ''IllegalCharacterError'')) 500"
    using falha ler_exemplo exemplo_falha pre unfolding req len lab by simp
  have ok: "\<forall>i<2. \<exists>it. processar_linha exemplo_rt exemplo_env exemplo_now ''atual'' []
                 (fst (exemplo_df ! i)) (strip_columns (snd (exemplo_df ! i))) = Inr it"
    using exemplo_linhas_ok(1,2) lab by (auto simp: less_2_cases_iff)
  have js: "\<forall>its. jsonify exemplo_env its = None" by (simp add: exemplo_env_def)
  note sucesso = C9_all_or_nothing [of exemplo_rt exemplo_env "\<lambda>i. exemplo_now"
      "exemplo_req None None" exemplo_upload exemplo_df 1 "LibError ''IllegalCharacterError''"]
  have b: "\<exists>items. processar_notas exemplo_rt exemplo_env (\<lambda>i. exemplo_now)
             (exemplo_req None None) = Json items"
    using sucesso ler_exemplo ok js unfolding req len by blast
  from exemplo_falha a b show ?thesis by (simp add: str_exn_def)
qed

section \<open>Current date\<close>

text \<open>
  C10. For every date mode other than \<open>escolher\<close> and \<open>venda\<close>, and for \<open>escolher\<close>
  with an empty custom date, the emission date is the current date in the format
  \<open>%d/%m/%Y\<close> (two digits, a slash, two digits, a slash, four digits); a missing mode counts as \<open>atual\<close>, so that every record of a successful
  request carries the date of the clock at its row. The resolution of the date is a total
  function into text: no mode makes it fail.
\<close>

theorem C10_current_date:
  "((modo_data \<noteq> ''escolher'' \<and> modo_data \<noteq> ''venda'')
      \<or> (modo_data = ''escolher'' \<and> data_custom = [])
    \<longrightarrow> data_emissao rt now modo_data data_custom r = strftime_dmy now)
   \<and> (processar_notas rt ev clock req = Json items
      \<longrightarrow> (case form_modoData req of None \<Rightarrow> ''atual'' | Some m \<Rightarrow> m) = modo_data
      \<longrightarrow> (case form_dataCustom req of None \<Rightarrow> [] | Some c \<Rightarrow> c) = data_custom
      \<longrightarrow> (modo_data \<noteq> ''escolher'' \<and> modo_data \<noteq> ''venda'')
            \<or> (modo_data = ''escolher'' \<and> data_custom = [])
      \<longrightarrow> (\<forall>i<length items. data (items ! i) = strftime_dmy (clock i)))
   \<and> (dt_day now < 100 \<and> dt_month now < 100 \<and> dt_year now < 10000
      \<longrightarrow> (\<exists>dd mm yyyy. strftime_dmy now = dd @ ''/'' @ mm @ ''/'' @ yyyy
             \<and> length dd = 2 \<and> length mm = 2 \<and> length yyyy = 4
             \<and> list_all is_digit (dd @ mm @ yyyy)))"
proof (intro conjI impI allI)
  assume "(modo_data \<noteq> ''escolher'' \<and> modo_data \<noteq> ''venda'')
      \<or> (modo_data = ''escolher'' \<and> data_custom = [])"
  then show "data_emissao rt now modo_data data_custom r = strftime_dmy now"
    by (auto simp: data_emissao_atual data_emissao_escolher_vazio)
next
  fix i
  assume j: "processar_notas rt ev clock req = Json items"
    and m: "(case form_modoData req of None \<Rightarrow> ''atual'' | Some m \<Rightarrow> m) = modo_data"
    and c: "(case form_dataCustom req of None \<Rightarrow> [] | Some c \<Rightarrow> c) = data_custom"
    and sel: "(modo_data \<noteq> ''escolher'' \<and> modo_data \<noteq> ''venda'')
      \<or> (modo_data = ''escolher'' \<and> data_custom = [])"
    and i: "i < length items"
  from processar_notas_Json [OF j] m c obtain df where
    loop: "processar_linhas rt ev clock modo_data data_custom 0 (strip_table df)
           = Inr items"
    by auto
  from processar_linhas_rows [OF loop] i have
    "processar_linha rt ev (clock i) modo_data data_custom (fst (strip_table df ! i))
       (snd (strip_table df ! i)) = Inr (items ! i)" by auto
  then have "data (items ! i)
     = data_emissao rt (clock i) modo_data data_custom (snd (strip_table df ! i))"
    by (rule processar_linha_fields(4))
  with sel show "data (items ! i) = strftime_dmy (clock i)"
    by (auto simp: data_emissao_atual data_emissao_escolher_vazio)
next
  assume "dt_day now < 100 \<and> dt_month now < 100 \<and> dt_year now < 10000"
  then show "\<exists>dd mm yyyy. strftime_dmy now = dd @ ''/'' @ mm @ ''/'' @ yyyy
             \<and> length dd = 2 \<and> length mm = 2 \<and> length yyyy = 4
             \<and> list_all is_digit (dd @ mm @ yyyy)"
    by (intro strftime_dmy_shape) simp_all
qed

theorem C10_witness:
  "data_emissao exemplo_rt exemplo_now ''atual'' [] (snd (exemplo_df ! 0))
     = strftime_dmy exemplo_now
   \<and> strftime_dmy exemplo_now = ''04/11/2026''
   \<and> (\<exists>items. processar_notas exemplo_rt exemplo_env (\<lambda>i. exemplo_now) (exemplo_req None None)
                = Json items
         \<and> length items = 2
         \<and> data (items ! 0) = ''04/11/2026'' \<and> data (items ! 1) = ''04/11/2026'')"
proof -
  obtain items where
    j: "processar_notas exemplo_rt exemplo_env (\<lambda>i. exemplo_now) (exemplo_req None None)
        = Json items" and
    n: "map data items = [''04/11/2026'', ''04/11/2026'']"
    using exemplo_nomes
    by (cases "processar_notas exemplo_rt exemplo_env (\<lambda>i. exemplo_now) (exemplo_req None None)")
       auto
  from n have len: "length items = 2" by (metis length_map length_Cons list.size(3) numeral_2_eq_2)
  have now: "strftime_dmy exemplo_now = ''04/11/2026''" by code_simp
  note c10 = C10_current_date [of "''atual''" "[]" exemplo_rt exemplo_now "snd (exemplo_df ! 0)"
      exemplo_env "\<lambda>i. exemplo_now" "exemplo_req None None" items]
  from c10 have a: "data_emissao exemplo_rt exemplo_now ''atual'' [] (snd (exemplo_df ! 0))
      = strftime_dmy exemplo_now" by simp
  from c10 j have "\<forall>i<length items. data (items ! i) = strftime_dmy exemplo_now"
    by (simp add: exemplo_req_def)
  with len now have "data (items ! 0) = ''04/11/2026''" "data (items ! 1) = ''04/11/2026''"
    by auto
  with a now j len show ?thesis by blast
qed

section \<open>Lemmas on text\<close>

lemma digit_chars:
  assumes "is_digit c"
  shows "\<not> is_space c" "c \<noteq> CHR ''R''" "c \<noteq> CHR ''$''" "c \<noteq> CHR ''.''" "c \<noteq> CHR '',''"
    "c \<noteq> CHR ''_''" "\<not> is_e c" "c \<noteq> CHR ''-''" "c \<noteq> CHR ''+''" "lower_char c = c"
    "c \<noteq> CHR ''i''" "c \<noteq> CHR ''n''"
  using assms by (auto simp: is_digit_def is_space_def is_e_def lower_char_def ord_def)

lemma space_chars:
  assumes "is_space c"
  shows "\<not> is_digit c" "c \<noteq> CHR ''R''" "c \<noteq> CHR ''$''" "c \<noteq> CHR ''.''" "c \<noteq> CHR '',''"
  using assms by (auto simp: is_digit_def is_space_def ord_def)

lemma other_chars:
  "\<not> is_digit (CHR ''R'')" "\<not> is_digit (CHR ''$'')" "\<not> is_digit (CHR ''.'')"
  "\<not> is_digit (CHR '','')" "\<not> is_space (CHR ''.'')" "\<not> is_space (CHR '','')"
  "\<not> is_e (CHR ''.'')" "\<not> is_space (CHR ''R'')" "\<not> is_digit (CHR ''_'')"
  "\<not> is_digit (CHR ''e'')" "\<not> is_digit (CHR ''E'')" "\<not> is_space (CHR ''$'')"
  by (simp_all add: is_digit_def is_space_def is_e_def ord_def)

lemma replace_RS_noR: "CHR ''R'' \<notin> set s \<Longrightarrow> py_replace ''R$'' [] s = s"
  by (induction s) auto

lemma replace_RS_append:
  "CHR ''R'' \<notin> set a \<Longrightarrow> py_replace ''R$'' [] (a @ b) = a @ py_replace ''R$'' [] b"
proof (induction a)
  case Nil
  then show ?case by simp
next
  case (Cons c a)
  then have "c \<noteq> CHR ''R''" by auto
  with Cons show ?case by simp
qed

lemma replace_RS_prefix: "py_replace ''R$'' [] (''R$'' @ b) = py_replace ''R$'' [] b"
  by simp

lemma replace_char_del: "py_replace [c] [] s = filter (\<lambda>x. x \<noteq> c) s"
  by (induction s) auto

lemma replace_char_map: "py_replace [c] [d] s = map (\<lambda>x. if x = c then d else x) s"
  by (induction s) auto

lemma dropWhile_spaces: "list_all is_space w \<Longrightarrow> dropWhile is_space (w @ x) = dropWhile is_space x"
  by (induction w) auto

lemma strip_core:
  assumes "list_all is_space w1" "list_all is_space w3" "x \<noteq> []"
    "\<not> is_space (hd x)" "\<not> is_space (last x)"
  shows "py_strip (w1 @ x @ w3) = x"
proof -
  have a: "dropWhile is_space (w1 @ x @ w3) = x @ w3"
    using assms by (cases x) (simp_all add: dropWhile_spaces)
  have "list_all is_space (rev w3)" using assms(2) by (simp add: list_all_iff)
  then have "dropWhile is_space (rev w3 @ rev x) = dropWhile is_space (rev x)"
    by (rule dropWhile_spaces)
  also have "\<dots> = rev x"
    using assms(3,5) by (cases "rev x") (auto simp: last_rev hd_rev)
  finally show ?thesis by (simp add: py_strip_def a)
qed



lemma rev_split:
  "x = rev (dropWhile P (rev x)) @ rev (takeWhile P (rev x))"
proof -
  have "rev (dropWhile P (rev x)) @ rev (takeWhile P (rev x))
        = rev (takeWhile P (rev x) @ dropWhile P (rev x))"
    by (simp only: rev_append)
  also have "\<dots> = x" by (simp only: takeWhile_dropWhile_id rev_rev_ident)
  finally show ?thesis by (rule sym)
qed

lemma strip_decomp:
  "\<exists>w1 w3. s = w1 @ py_strip s @ w3 \<and> list_all is_space w1 \<and> list_all is_space w3"
proof (intro exI conjI)
  let ?x = "dropWhile is_space s"
  have "takeWhile is_space s @ py_strip s @ rev (takeWhile is_space (rev ?x))
        = takeWhile is_space s @ ?x"
    unfolding py_strip_def by (simp only: rev_split [symmetric])
  also have "\<dots> = s" by (rule takeWhile_dropWhile_id)
  finally show "s = takeWhile is_space s @ py_strip s @ rev (takeWhile is_space (rev ?x))"
    by (rule sym)
  show "list_all is_space (takeWhile is_space s)"
    unfolding list_all_iff by (blast dest: set_takeWhileD)
  show "list_all is_space (rev (takeWhile is_space (rev ?x)))"
    unfolding list_all_iff set_rev by (blast dest: set_takeWhileD)
qed

lemma grupos3_chars:
  "spec_thousands r \<Longrightarrow> list_all (\<lambda>c. is_digit c \<or> c = CHR ''.'') r \<and> (r = [] \<or> is_digit (last r))"
  by (induction r rule: spec_thousands.induct) auto

lemma strip_underscores_none:
  "CHR ''_'' \<notin> set x \<Longrightarrow> p \<noteq> CHR ''_'' \<Longrightarrow> strip_underscores p x = Some x"
  by (induction x arbitrary: p) auto

lemma strip_id:
  "x \<noteq> [] \<Longrightarrow> \<not> is_space (hd x) \<Longrightarrow> \<not> is_space (last x) \<Longrightarrow> py_strip x = x"
  using strip_core [of "[]" "[]" x] by simp

lemma takeWhile_all: "list_all P xs \<Longrightarrow> takeWhile P xs = xs"
  by (induction xs) auto

lemma dropWhile_all: "list_all P xs \<Longrightarrow> dropWhile P xs = []"
  by (induction xs) auto

lemma takeWhile_stop:
  assumes "list_all P xs" "ys = [] \<or> \<not> P (hd ys)"
  shows "takeWhile P (xs @ ys) = xs"
proof -
  have "takeWhile P ys = []" using assms(2) by (cases ys) auto
  moreover have "takeWhile P (xs @ ys) = xs @ takeWhile P ys"
    using assms(1) by (intro takeWhile_append2) (simp add: list_all_iff)
  ultimately show ?thesis by simp
qed

lemma dropWhile_stop:
  assumes "list_all P xs" "ys = [] \<or> \<not> P (hd ys)"
  shows "dropWhile P (xs @ ys) = ys"
proof -
  have "dropWhile P ys = ys" using assms(2) by (cases ys) auto
  moreover have "dropWhile P (xs @ ys) = dropWhile P ys"
    using assms(1) by (intro dropWhile_append2) (simp add: list_all_iff)
  ultimately show ?thesis by simp
qed

lemma parse_decimal_digits:
  assumes d: "list_all is_digit d" "d \<noteq> []" and ds: "list_all is_digit ds"
    and f: "f = [] \<and> ds = [] \<or> f = CHR ''.'' # ds"
  shows "parse_decimal (d @ f) = Some (rat_of_nat (digits_val (d @ ds)) / 10 ^ length ds)"
proof -
  have ne: "list_all (\<lambda>c. \<not> is_e c) (d @ f)"
    using d ds f by (auto simp: list_all_iff digit_chars other_chars)
  have m: "takeWhile (\<lambda>c. \<not> is_e c) (d @ f) = d @ f"
    and r: "dropWhile (\<lambda>c. \<not> is_e c) (d @ f) = []"
    using ne by (rule takeWhile_all, rule dropWhile_all)
  have nd: "list_all (\<lambda>c. c \<noteq> CHR ''.'') d"
    using d by (auto simp: list_all_iff digit_chars)
  have st: "f = [] \<or> \<not> (hd f \<noteq> CHR ''.'')" using f by auto
  have ip: "takeWhile (\<lambda>c. c \<noteq> CHR ''.'') (d @ f) = d"
    using nd st by (rule takeWhile_stop)
  have fp: "dropWhile (\<lambda>c. c \<noteq> CHR ''.'') (d @ f) = f"
    using nd st by (rule dropWhile_stop)
  have dr: "drop 1 f = ds" using f by auto
  show ?thesis
    unfolding parse_decimal_def m r ip fp dr Let_def using d ds by simp
qed

lemma digits_no_underscore: "list_all is_digit xs \<Longrightarrow> CHR ''_'' \<notin> set xs"
  by (induction xs) (auto simp: other_chars)

lemma py_float_digits:
  assumes d: "list_all is_digit d" "d \<noteq> []" and ds: "list_all is_digit ds"
    and f: "f = [] \<and> ds = [] \<or> f = CHR ''.'' # ds \<and> ds \<noteq> []"
  shows "py_float rt (d @ f)
         = Inr (to_float rt (rat_of_nat (digits_val (d @ ds)) / 10 ^ length ds))"
proof -
  obtain c d' where dc: "d = c # d'" and c: "is_digit c"
    using d by (cases d) auto
  have nu: "CHR ''_'' \<notin> set (d @ f)"
    using digits_no_underscore [OF d(1)] digits_no_underscore [OF ds] f by auto
  have su: "strip_underscores (CHR 0x00) (d @ f) = Some (d @ f)"
    using nu by (rule strip_underscores_none) simp
  have l: "is_digit (last (d @ f))"
    using d ds f by (auto simp: list_all_iff)
  have h: "hd (d @ f) = c" using dc by simp
  have sp: "py_strip (d @ f) = d @ f"
    using d(2) c l h by (intro strip_id) (simp_all add: digit_chars)
  have lo: "py_lower (d @ f) = c # py_lower (d' @ f)"
    using dc c by (simp add: py_lower_def digit_chars)
  have pd: "parse_decimal (d @ f)
            = Some (rat_of_nat (digits_val (d @ ds)) / 10 ^ length ds)"
    using d ds f by (intro parse_decimal_digits) auto
  have body: "(if d @ f \<noteq> [] \<and> (hd (d @ f) = CHR ''-'' \<or> hd (d @ f) = CHR ''+'')
               then tl (d @ f) else d @ f) = d @ f"
    using h c by (simp add: digit_chars)
  have neg: "(d @ f \<noteq> [] \<and> hd (d @ f) = CHR ''-'') = False"
    using h c by (simp add: digit_chars)
  show ?thesis
    unfolding py_float_def su option.case sp Let_def body neg lo pd
    using c by (simp add: digit_chars)
qed

lemma py_float_neg_digits:
  assumes d: "list_all is_digit d" "d \<noteq> []" and nz: "digits_val d \<noteq> 0"
  shows "py_float rt (CHR ''-'' # d) = Inr (to_float rt (- rat_of_nat (digits_val d)))"
proof -
  obtain c d' where dc: "d = c # d'" and c: "is_digit c"
    using d by (cases d) auto
  have nu: "CHR ''_'' \<notin> set (CHR ''-'' # d)"
    using digits_no_underscore [OF d(1)] by simp
  have su: "strip_underscores (CHR 0x00) (CHR ''-'' # d) = Some (CHR ''-'' # d)"
    using nu by (rule strip_underscores_none) simp
  have "is_digit (last d)" using d unfolding list_all_iff by (metis last_in_set)
  then have l: "\<not> is_space (last (CHR ''-'' # d))" using d(2) by (simp add: digit_chars)
  have h: "\<not> is_space (hd (CHR ''-'' # d))" by (simp add: is_space_def ord_def)
  have sp: "py_strip (CHR ''-'' # d) = CHR ''-'' # d"
    using h l by (intro strip_id) simp_all
  have lo: "py_lower d = c # py_lower d'"
    using dc c by (simp add: py_lower_def digit_chars)
  have "parse_decimal (d @ []) = Some (rat_of_nat (digits_val (d @ [])) / 10 ^ length ([] :: string))"
    using d by (intro parse_decimal_digits) simp_all
  then have pd: "parse_decimal d = Some (rat_of_nat (digits_val d))" by simp
  have body: "(if CHR ''-'' # d \<noteq> []
                  \<and> (hd (CHR ''-'' # d) = CHR ''-'' \<or> hd (CHR ''-'' # d) = CHR ''+'')
               then tl (CHR ''-'' # d) else CHR ''-'' # d) = d"
    by simp
  have neg: "(CHR ''-'' # d \<noteq> [] \<and> hd (CHR ''-'' # d) = CHR ''-'') = True"
    by simp
  show ?thesis
    unfolding py_float_def su option.case sp Let_def body neg lo pd
    using c nz by (simp add: digit_chars)
qed

lemma digits_val_snoc: "digits_val (ds @ [c]) = 10 * digits_val ds + digit_val c"
  by (simp add: digits_val_def)

lemma digits_val_str_nat: "digits_val (str_nat n) = n"
proof (induction n rule: str_nat.induct)
  case (1 n)
  show ?case
  proof (cases "n < 10")
    case True
    then show ?thesis
      by (subst str_nat.simps) (simp add: digits_val_def digit_val_def ord_char_of)
  next
    case False
    have "n mod 10 < 10" by simp
    then have "digit_val (char_of (48 + n mod 10)) = n mod 10"
      by (simp add: digit_val_def ord_char_of)
    with False 1 show ?thesis by (subst str_nat.simps) (simp add: digits_val_snoc)
  qed
qed

lemma str_nat_not_Nil: "str_nat n \<noteq> []"
  by (subst str_nat.simps) simp

lemma filter_all: "list_all P xs \<Longrightarrow> filter P xs = xs"

  by (induction xs) auto

lemma filter_none: "list_all (\<lambda>x. \<not> P x) xs \<Longrightarrow> filter P xs = []"
  by (induction xs) auto

lemma map_fix: "list_all (\<lambda>x. f x = x) xs \<Longrightarrow> map f xs = xs"
  by (induction xs) auto

lemma grupos3_filter: "spec_thousands r \<Longrightarrow> filter (\<lambda>x. x \<noteq> CHR ''.'') r = filter is_digit r"
  by (induction r rule: spec_thousands.induct) (auto simp: digit_chars other_chars)

lemma not_mem: "list_all P w \<Longrightarrow> \<not> P c \<Longrightarrow> c \<notin> set w"
  by (auto simp: list_all_iff)

lemma all_mono: "list_all P w \<Longrightarrow> (\<And>x. P x \<Longrightarrow> Q x) \<Longrightarrow> list_all Q w"
  by (auto simp: list_all_iff)

lemma spaces_props:
  assumes "list_all is_space w"
  shows "CHR ''R'' \<notin> set w" "list_all (\<lambda>x. x \<noteq> CHR ''.'') w" "list_all (\<lambda>x. x \<noteq> CHR '','') w"
    "list_all (\<lambda>x. \<not> is_digit x) w"
    "list_all (\<lambda>x. (if x = CHR '','' then CHR ''.'' else x) = x) w"
proof -
  show "CHR ''R'' \<notin> set w" by (rule not_mem [OF assms]) (simp add: other_chars)
  show "list_all (\<lambda>x. x \<noteq> CHR ''.'') w" by (rule all_mono [OF assms]) (simp add: space_chars)
  show "list_all (\<lambda>x. x \<noteq> CHR '','') w" by (rule all_mono [OF assms]) (simp add: space_chars)
  show "list_all (\<lambda>x. \<not> is_digit x) w" by (rule all_mono [OF assms]) (simp add: space_chars)
  show "list_all (\<lambda>x. (if x = CHR '','' then CHR ''.'' else x) = x) w"
    by (rule all_mono [OF assms]) (simp add: space_chars)
qed

lemma digits_props:
  assumes "list_all is_digit w"
  shows "CHR ''R'' \<notin> set w" "list_all (\<lambda>x. x \<noteq> CHR ''.'') w" "list_all (\<lambda>x. x \<noteq> CHR '','') w"
    "list_all (\<lambda>x. (if x = CHR '','' then CHR ''.'' else x) = x) w"
proof -
  show "CHR ''R'' \<notin> set w" by (rule not_mem [OF assms]) (simp add: other_chars)
  show "list_all (\<lambda>x. x \<noteq> CHR ''.'') w" by (rule all_mono [OF assms]) (simp add: digit_chars)
  show "list_all (\<lambda>x. x \<noteq> CHR '','') w" by (rule all_mono [OF assms]) (simp add: digit_chars)
  show "list_all (\<lambda>x. (if x = CHR '','' then CHR ''.'' else x) = x) w"
    by (rule all_mono [OF assms]) (simp add: digit_chars)
qed

lemma grupos3_props:
  assumes "spec_thousands r"
  shows "CHR ''R'' \<notin> set r" "list_all (\<lambda>x. x \<noteq> CHR '','') r"
proof -
  from grupos3_chars [OF assms] have a: "list_all (\<lambda>c. is_digit c \<or> c = CHR ''.'') r"
    by (rule conjunct1)
  show "CHR ''R'' \<notin> set r" by (rule not_mem [OF a]) (simp add: other_chars)
  show "list_all (\<lambda>x. x \<noteq> CHR '','') r"
    by (rule all_mono [OF a]) (auto simp: other_chars)
qed

lemma limpar_texto_parts:
  assumes w: "list_all is_space w1" "list_all is_space w2" "list_all is_space w3"
    and c0: "cur = [] \<or> cur = ''R$''"
    and g0: "g0 \<noteq> []" "list_all is_digit g0"
    and rest: "spec_thousands rest"
    and ds: "list_all is_digit ds"
    and fr: "fr = [] \<and> ds = [] \<or> fr = CHR '','' # ds \<and> ds \<noteq> []"
  shows "limpar_texto (w1 @ cur @ w2 @ g0 @ rest @ fr @ w3)
         = (g0 @ filter is_digit rest) @ (if fr = [] then [] else CHR ''.'' # ds)"
proof -
  let ?d = "g0 @ filter is_digit rest"
  let ?f = "if fr = [] then [] else CHR ''.'' # ds"
  have frR: "CHR ''R'' \<notin> set fr"
    using fr digits_props(1) [OF ds] by auto
  have tailR: "CHR ''R'' \<notin> set (w2 @ g0 @ rest @ fr @ w3)"
    using spaces_props(1) [OF w(2)] spaces_props(1) [OF w(3)] digits_props(1) [OF g0(2)]
      grupos3_props(1) [OF rest] frR by simp
  have "py_replace ''R$'' [] (cur @ w2 @ g0 @ rest @ fr @ w3) = w2 @ g0 @ rest @ fr @ w3"
  proof (cases "cur = []")
    case True
    then show ?thesis using replace_RS_noR [OF tailR] by simp
  next
    case False
    with c0 have s: "cur = ''R$''" by simp
    have "py_replace ''R$'' [] (''R$'' @ (w2 @ g0 @ rest @ fr @ w3))
          = py_replace ''R$'' [] (w2 @ g0 @ rest @ fr @ w3)"
      by (rule replace_RS_prefix)
    then show ?thesis using replace_RS_noR [OF tailR] s by simp
  qed
  then have A: "py_replace ''R$'' [] (w1 @ cur @ w2 @ g0 @ rest @ fr @ w3)
                = w1 @ w2 @ g0 @ rest @ fr @ w3"
    using replace_RS_append [OF spaces_props(1) [OF w(1)]] by simp
  have frdot: "filter (\<lambda>x. x \<noteq> CHR ''.'') fr = fr"
    using fr filter_all [OF digits_props(2) [OF ds]] by auto
  have B: "py_replace ''.'' [] (w1 @ w2 @ g0 @ rest @ fr @ w3)
           = w1 @ w2 @ ?d @ fr @ w3"
    unfolding replace_char_del
    using filter_all [OF spaces_props(2) [OF w(1)]] filter_all [OF spaces_props(2) [OF w(2)]]
      filter_all [OF spaces_props(2) [OF w(3)]] filter_all [OF digits_props(2) [OF g0(2)]]
      grupos3_filter [OF rest] frdot
    by simp
  have dd: "list_all is_digit (filter is_digit rest)" by (simp add: list_all_iff)
  have frmap: "map (\<lambda>x. if x = CHR '','' then CHR ''.'' else x) fr = ?f"
    using fr map_fix [OF digits_props(4) [OF ds]] by auto
  have C: "py_replace '','' ''.'' (w1 @ w2 @ ?d @ fr @ w3) = w1 @ w2 @ ?d @ ?f @ w3"
    unfolding replace_char_map
    using map_fix [OF spaces_props(5) [OF w(1)]] map_fix [OF spaces_props(5) [OF w(2)]]
      map_fix [OF spaces_props(5) [OF w(3)]] map_fix [OF digits_props(4) [OF g0(2)]]
      map_fix [OF digits_props(4) [OF dd]] frmap
    by simp
  obtain c g where g: "g0 = c # g" using g0(1) by (cases g0) auto
  then have hd: "is_digit (hd (?d @ ?f))" using g0(2) by simp
  have last: "is_digit (last (?d @ ?f))"
  proof (cases "fr = []")
    case True
    have "?d \<noteq> []" using g0(1) by simp
    moreover have "list_all is_digit ?d" using g0(2) by (auto simp: list_all_iff)
    ultimately have "is_digit (last ?d)" unfolding list_all_iff by (metis last_in_set)
    with True show ?thesis by simp
  next
    case False
    with fr have "ds \<noteq> []" by auto
    then have "is_digit (last ds)" using ds unfolding list_all_iff by (metis last_in_set)
    with False \<open>ds \<noteq> []\<close> show ?thesis by simp
  qed
  have w12: "list_all is_space (w1 @ w2)" using w by simp
  have "py_strip ((w1 @ w2) @ (?d @ ?f) @ w3) = ?d @ ?f"
    using w12 w(3) hd last g by (intro strip_core) (simp_all add: digit_chars)
  then have D: "py_strip (w1 @ w2 @ ?d @ ?f @ w3) = ?d @ ?f" by simp
  show ?thesis unfolding limpar_texto_def A B C D ..
qed

lemma limpar_moeda_parts:
  assumes w: "list_all is_space w1" "list_all is_space w2" "list_all is_space w3"
    and c0: "cur = [] \<or> cur = ''R$''"
    and g0: "g0 \<noteq> []" "list_all is_digit g0"
    and rest: "spec_thousands rest"
    and ds: "list_all is_digit ds"
    and fr: "fr = [] \<and> ds = [] \<or> fr = CHR '','' # ds \<and> ds \<noteq> []"
  shows "limpar_moeda rt (PyStr (w1 @ cur @ w2 @ g0 @ rest @ fr @ w3))
         = Inr (PyFloat (to_float rt
             (rat_of_nat (digits_val (g0 @ filter is_digit rest @ ds)) / 10 ^ length ds)))"
proof -
  let ?d = "g0 @ filter is_digit rest"
  have t: "limpar_texto (w1 @ cur @ w2 @ g0 @ rest @ fr @ w3)
           = ?d @ (if fr = [] then [] else CHR ''.'' # ds)"
    using assms by (rule limpar_texto_parts)
  have d: "list_all is_digit ?d" "?d \<noteq> []" using g0 by (auto simp: list_all_iff)
  have f: "(if fr = [] then [] else CHR ''.'' # ds) = [] \<and> ds = []
           \<or> (if fr = [] then [] else CHR ''.'' # ds) = CHR ''.'' # ds \<and> ds \<noteq> []"
    using fr by auto
  have "py_float rt (?d @ (if fr = [] then [] else CHR ''.'' # ds))
        = Inr (to_float rt (rat_of_nat (digits_val (?d @ ds)) / 10 ^ length ds))"
    using d ds f by (rule py_float_digits)
  then show ?thesis
    by (simp add: limpar_moeda_def is_number_def py_str_def t)
qed

lemma currency_value_parts:
  assumes w: "list_all is_space w1" "list_all is_space w2" "list_all is_space w3"
    and c0: "cur = [] \<or> cur = ''R$''"
    and g0: "list_all is_digit g0"
    and rest: "spec_thousands rest"
    and ds: "list_all is_digit ds"
    and fr: "fr = [] \<and> ds = [] \<or> fr = CHR '','' # ds \<and> ds \<noteq> []"
  shows "spec_currency_value (w1 @ cur @ w2 @ g0 @ rest @ fr @ w3)
         = rat_of_nat (digits_val (g0 @ filter is_digit rest @ ds)) / 10 ^ length ds"
proof -
  have symd: "filter is_digit cur = []" using c0 by (auto simp: other_chars)
  have frd: "filter is_digit fr = ds"
    using fr filter_all [OF ds] by (auto simp: other_chars)
  have F: "filter is_digit (w1 @ cur @ w2 @ g0 @ rest @ fr @ w3)
           = g0 @ filter is_digit rest @ ds"
    using filter_none [OF spaces_props(4) [OF w(1)]] filter_none [OF spaces_props(4) [OF w(2)]]
      filter_none [OF spaces_props(4) [OF w(3)]] filter_all [OF g0] symd frd
    by simp
  have symc: "list_all (\<lambda>x. x \<noteq> CHR '','') cur" using c0 by auto
  have pre: "list_all (\<lambda>x. x \<noteq> CHR '','') (w1 @ cur @ w2 @ g0 @ rest)"
    using spaces_props(3) [OF w(1)] spaces_props(3) [OF w(2)] digits_props(3) [OF g0]
      grupos3_props(2) [OF rest] symc by simp
  have "filter is_digit (dropWhile (\<lambda>c. c \<noteq> CHR '','')
          ((w1 @ cur @ w2 @ g0 @ rest) @ fr @ w3)) = ds"
  proof (cases "fr = []")
    case True
    have "list_all (\<lambda>x. x \<noteq> CHR '','') ((w1 @ cur @ w2 @ g0 @ rest) @ w3)"
      using pre spaces_props(3) [OF w(3)] by simp
    then have e: "dropWhile (\<lambda>x. x \<noteq> CHR '','') ((w1 @ cur @ w2 @ g0 @ rest) @ [] @ w3) = []"
      unfolding append_Nil by (rule dropWhile_all)
    have "ds = []" using True fr by auto
    then show ?thesis unfolding True e by simp
  next
    case False
    with fr have f: "fr = CHR '','' # ds" by auto
    have "dropWhile (\<lambda>c. c \<noteq> CHR '','') ((w1 @ cur @ w2 @ g0 @ rest) @ fr @ w3) = fr @ w3"
      using pre by (rule dropWhile_stop) (simp add: f)
    then show ?thesis
      using frd filter_none [OF spaces_props(4) [OF w(3)]] by simp
  qed
  then have G: "filter is_digit (dropWhile (\<lambda>c. c \<noteq> CHR '','')
          (w1 @ cur @ w2 @ g0 @ rest @ fr @ w3)) = ds" by simp
  show ?thesis unfolding spec_currency_value_def F G ..
qed

section \<open>Lemmas on the normaliser\<close>

lemma currency_form_parts:
  assumes "spec_currency_form s"
  shows "\<exists>w1 cur w2 g0 rest fr ds w3.
           s = w1 @ cur @ w2 @ g0 @ rest @ fr @ w3
         \<and> list_all is_space w1 \<and> list_all is_space w2 \<and> list_all is_space w3
         \<and> (cur = [] \<or> cur = ''R$'') \<and> g0 \<noteq> [] \<and> list_all is_digit g0 \<and> spec_thousands rest
         \<and> list_all is_digit ds \<and> (fr = [] \<and> ds = [] \<or> fr = CHR '','' # ds \<and> ds \<noteq> [])"
proof -
  from strip_decomp obtain w1 w3 where
    s: "s = w1 @ py_strip s @ w3" and w1: "list_all is_space w1" and w3: "list_all is_space w3"
    by blast
  define t where "t = py_strip s"
  define b where "b = (take 2 t = ''R$'')"
  define cur where "cur = (if b then ''R$'' else [])"
  define w2 where "w2 = (if b then takeWhile is_space (drop 2 t) else [])"
  define u where "u = (if b then dropWhile is_space (drop 2 t) else t)"
  define ip where "ip = takeWhile (\<lambda>c. c \<noteq> CHR '','') u"
  define fr where "fr = dropWhile (\<lambda>c. c \<noteq> CHR '','') u"
  define g0 where "g0 = takeWhile is_digit ip"
  define rest where "rest = dropWhile is_digit ip"
  define ds where "ds = drop 1 fr"
  have t: "t = cur @ w2 @ u"
  proof (cases b)
    case True
    then have "take 2 t = ''R$''" by (simp add: b_def)
    then have "t = ''R$'' @ drop 2 t" by (metis append_take_drop_id)
    also have "drop 2 t = takeWhile is_space (drop 2 t) @ dropWhile is_space (drop 2 t)"
      by simp
    finally show ?thesis using True by (simp add: cur_def w2_def u_def)
  next
    case False
    then show ?thesis by (simp add: cur_def w2_def u_def)
  qed
  have u: "u = ip @ fr" by (simp add: ip_def fr_def)
  have ip: "ip = g0 @ rest" by (simp add: g0_def rest_def)
  from assms have cf: "g0 \<noteq> []" "spec_thousands rest"
    "fr = [] \<or> (ds \<noteq> [] \<and> list_all is_digit ds)"
    unfolding spec_currency_form_def Let_def t_def [symmetric] b_def [symmetric] u_def [symmetric]
      ip_def [symmetric] fr_def [symmetric] g0_def [symmetric] rest_def [symmetric]
      ds_def [symmetric]
    by blast+
  have w2: "list_all is_space w2"
    unfolding w2_def list_all_iff by (auto dest: set_takeWhileD)
  have g0: "list_all is_digit g0"
    unfolding g0_def list_all_iff by (auto dest: set_takeWhileD)
  have cur: "cur = [] \<or> cur = ''R$''" by (simp add: cur_def)
  have frc: "fr \<noteq> [] \<Longrightarrow> fr = CHR '','' # ds"
  proof -
    assume ne: "fr \<noteq> []"
    then have "\<not> (hd fr \<noteq> CHR '','')" unfolding fr_def by (rule hd_dropWhile)
    with ne show ?thesis by (cases fr) (simp_all add: ds_def)
  qed
  have dsd: "list_all is_digit ds" using cf(3) by (auto simp: ds_def)
  have frd: "fr = [] \<and> ds = [] \<or> fr = CHR '','' # ds \<and> ds \<noteq> []"
  proof (cases "fr = []")
    case True
    then show ?thesis by (simp add: ds_def)
  next
    case False
    with cf(3) frc show ?thesis by blast
  qed
  have "s = w1 @ cur @ w2 @ g0 @ rest @ fr @ w3"
    using s t u ip by (simp add: t_def)
  with w1 w2 w3 cur cf(1,2) g0 dsd frd show ?thesis by blast
qed

lemma limpar_moeda_currency:
  assumes "spec_currency_form s"
  shows "limpar_moeda rt (PyStr s) = Inr (PyFloat (to_float rt (spec_currency_value s)))"
proof -
  from currency_form_parts [OF assms] obtain w1 cur w2 g0 rest fr ds w3 where
    s: "s = w1 @ cur @ w2 @ g0 @ rest @ fr @ w3" and
    w: "list_all is_space w1" "list_all is_space w2" "list_all is_space w3" and
    c: "cur = [] \<or> cur = ''R$''" and g: "g0 \<noteq> []" "list_all is_digit g0" and
    r: "spec_thousands rest" and d: "list_all is_digit ds" and
    f: "fr = [] \<and> ds = [] \<or> fr = CHR '','' # ds \<and> ds \<noteq> []"
    by blast
  have "limpar_moeda rt (PyStr (w1 @ cur @ w2 @ g0 @ rest @ fr @ w3))
        = Inr (PyFloat (to_float rt
             (rat_of_nat (digits_val (g0 @ filter is_digit rest @ ds)) / 10 ^ length ds)))"
    using w c g r d f by (rule limpar_moeda_parts)
  moreover have "spec_currency_value (w1 @ cur @ w2 @ g0 @ rest @ fr @ w3)
         = rat_of_nat (digits_val (g0 @ filter is_digit rest @ ds)) / 10 ^ length ds"
    using w c g(2) r d f by (rule currency_value_parts)
  ultimately show ?thesis unfolding s by simp
qed

lemma currency_value_nonneg: "0 \<le> spec_currency_value s"
  by (simp add: spec_currency_value_def)

lemma limpar_moeda_total: "\<exists>v. limpar_moeda rt x = Inr v"
  by (simp add: limpar_moeda_def split: sum.split)

lemma limpar_moeda_falha:
  "py_float rt (limpar_texto s) = Inl e \<Longrightarrow> limpar_moeda rt (PyStr s) = Inr (PyFloat (Fin 0))"
  by (simp add: limpar_moeda_def is_number_def py_str_def)

lemma limpar_moeda_parsed:
  "py_float rt (limpar_texto s) = Inr f \<Longrightarrow> limpar_moeda rt (PyStr s) = Inr (PyFloat f)"
  by (simp add: limpar_moeda_def is_number_def py_str_def)

lemma replace_keeps:
  "c \<in> set s \<Longrightarrow> c \<notin> set old \<Longrightarrow> c \<in> set (py_replace old new s)"
proof (induction old new s rule: py_replace.induct)
  case (1 old new)
  then show ?case by simp
next
  case (2 old new x xs)
  show ?case
  proof (cases "old = []")
    case True
    with 2 show ?thesis by auto
  next
    case ne: False
    show ?thesis
    proof (cases "take (length old) (x # xs) = old")
      case True
      have "x # xs = take (length old) (x # xs) @ drop (length old) (x # xs)" by simp
      then have "set (x # xs) = set old \<union> set (drop (length old) (x # xs))"
        using True by (metis set_append)
      with "2.prems" have "c \<in> set (drop (length old) (x # xs))" by blast
      with 2 ne True have "c \<in> set (py_replace old new (drop (length old) (x # xs)))"
        by blast
      with ne True show ?thesis by simp
    next
      case False
      with 2 ne show ?thesis by auto
    qed
  qed
qed

lemma dropWhile_keeps: "c \<in> set xs \<Longrightarrow> \<not> P c \<Longrightarrow> c \<in> set (dropWhile P xs)"
  by (induction xs) auto

lemma strip_keeps: "c \<in> set s \<Longrightarrow> \<not> is_space c \<Longrightarrow> c \<in> set (py_strip s)"
proof -
  assume c: "c \<in> set s" "\<not> is_space c"
  then have "c \<in> set (rev (dropWhile is_space s))" by (simp add: dropWhile_keeps)
  then have "c \<in> set (dropWhile is_space (rev (dropWhile is_space s)))"
    using c(2) by (rule dropWhile_keeps)
  then show ?thesis by (simp add: py_strip_def)
qed

lemma underscores_keeps:
  "strip_underscores p x = Some u \<Longrightarrow> c \<in> set x \<Longrightarrow> c \<noteq> CHR ''_'' \<Longrightarrow> c \<in> set u"
proof (induction x arbitrary: p u)
  case Nil
  then show ?case by simp
next
  case (Cons a x)
  then show ?case by (auto split: if_splits)
qed

lemma take_drop_While_set: "set xs = set (takeWhile P xs) \<union> set (dropWhile P xs)"
  by (metis set_append takeWhile_dropWhile_id)

lemma dropWhile_tail:
  assumes "c \<in> set (dropWhile P xs)" "P c"
  shows "c \<in> set (drop 1 (dropWhile P xs))"
proof (cases "dropWhile P xs")
  case Nil
  with assms show ?thesis by simp
next
  case (Cons y ys)
  then have "\<not> P y" by (metis hd_dropWhile list.sel(1) list.distinct(1))
  with assms Cons show ?thesis by auto
qed

lemma parse_exponent_bad:
  assumes "c \<in> set e" "\<not> is_digit c" "c \<noteq> CHR ''-''" "c \<noteq> CHR ''+''"
  shows "parse_exponent e = None"
proof -
  have "c \<in> set (if e \<noteq> [] \<and> (hd e = CHR ''-'' \<or> hd e = CHR ''+'') then tl e else e)"
    using assms by (cases e) auto
  then have "\<not> list_all is_digit
      (if e \<noteq> [] \<and> (hd e = CHR ''-'' \<or> hd e = CHR ''+'') then tl e else e)"
    using assms(2) unfolding list_all_iff by blast
  then show ?thesis unfolding parse_exponent_def Let_def by simp
qed

lemma parse_decimal_bad:
  assumes c: "c \<in> set body" and nd: "\<not> is_digit c" and np: "c \<noteq> CHR ''.''"
    and ne: "\<not> is_e c" and ns: "c \<noteq> CHR ''-''" "c \<noteq> CHR ''+''"
  shows "parse_decimal body = None"
proof -
  let ?mant = "takeWhile (\<lambda>c. \<not> is_e c) body"
  let ?rest = "dropWhile (\<lambda>c. \<not> is_e c) body"
  let ?ip = "takeWhile (\<lambda>c. c \<noteq> CHR ''.'') ?mant"
  let ?fp = "drop 1 (dropWhile (\<lambda>c. c \<noteq> CHR ''.'') ?mant)"
  from c have "c \<in> set ?mant \<or> c \<in> set ?rest"
    using take_drop_While_set [of body "\<lambda>c. \<not> is_e c"] by blast
  then show ?thesis
  proof
    assume "c \<in> set ?mant"
    then have "c \<in> set ?ip \<or> c \<in> set (dropWhile (\<lambda>c. c \<noteq> CHR ''.'') ?mant)"
      using take_drop_While_set [of ?mant "\<lambda>c. c \<noteq> CHR ''.''"] by blast
    then have "c \<in> set ?ip \<or> c \<in> set ?fp"
      using np dropWhile_tail [of c "\<lambda>c. c \<noteq> CHR ''.''" ?mant] by blast
    then have "\<not> (list_all is_digit ?ip \<and> list_all is_digit ?fp \<and> ?ip @ ?fp \<noteq> [])"
      using nd unfolding list_all_iff by blast
    then show ?thesis unfolding parse_decimal_def Let_def by (rule if_not_P)
  next
    assume "c \<in> set ?rest"
    then have "c \<in> set (drop 1 ?rest)"
      using ne by (intro dropWhile_tail) simp_all
    then obtain y ys where ys: "?rest = y # ys" and cy: "c \<in> set ys"
      by (cases ?rest) simp_all
    have r: "?rest \<noteq> []" unfolding ys by (rule list.distinct(2))
    have "c \<in> set (tl ?rest)" unfolding ys using cy by simp
    then have pe: "parse_exponent (tl ?rest) = None"
      using nd ns by (intro parse_exponent_bad)
    show ?thesis unfolding parse_decimal_def Let_def
      by (simp only: r pe if_False option.case if_cancel)
  qed
qed

lemma lower_e: "lower_char (CHR ''E'') = CHR ''e''" "lower_char (CHR ''e'') = CHR ''e''"
  by code_simp+

lemma py_float_bad:
  assumes c: "c \<in> set s" and bad: "\<not> literal_char c"
  shows "py_float rt s = Inl ValueError"
proof (cases "strip_underscores (CHR 0x00) s")
  case None
  then show ?thesis by (simp add: py_float_def)
next
  case (Some u)
  from bad have nd: "\<not> is_digit c" and nsp: "\<not> is_space c" and
    nch: "c \<noteq> CHR ''.''" "c \<noteq> CHR ''+''" "c \<noteq> CHR ''-''" "c \<noteq> CHR ''_''" and
    nl: "lower_char c \<notin> set ''einfatyn''"
    by (auto simp: literal_char_def)
  have ne: "\<not> is_e c"
  proof
    assume "is_e c"
    then have "lower_char c = CHR ''e''" by (auto simp: is_e_def lower_e)
    with nl show False by simp
  qed
  let ?t = "py_strip u"
  let ?body = "if ?t \<noteq> [] \<and> (hd ?t = CHR ''-'' \<or> hd ?t = CHR ''+'') then tl ?t else ?t"
  from underscores_keeps [OF Some c nch(4)] have "c \<in> set u" .
  then have "c \<in> set ?t" using nsp by (rule strip_keeps)
  then have cb: "c \<in> set ?body" using nch(2,3) by (cases ?t) auto
  then have "lower_char c \<in> set (py_lower ?body)" by (simp add: py_lower_def)
  with nl have low: "py_lower ?body \<noteq> ''inf''" "py_lower ?body \<noteq> ''infinity''"
    "py_lower ?body \<noteq> ''nan''" by auto
  have pd: "parse_decimal ?body = None"
    using cb nd nch(1) ne nch(3,2) by (rule parse_decimal_bad)
  show ?thesis
    unfolding py_float_def Some option.case Let_def using low pd by simp
qed

lemma limpar_texto_keeps:
  assumes "c \<in> set s" "\<not> literal_char c"
  shows "c \<in> set (limpar_texto s)"
proof -
  from assms(2) have n: "c \<notin> set ''R$''" "c \<notin> set ''.''" "c \<notin> set '',''" "\<not> is_space c"
    by (auto simp: literal_char_def)
  from assms(1) n(1) have "c \<in> set (py_replace ''R$'' [] s)" by (rule replace_keeps)
  then have "c \<in> set (py_replace ''.'' [] (py_replace ''R$'' [] s))"
    using n(2) by (rule replace_keeps)
  then have "c \<in> set (py_replace '','' ''.'' (py_replace ''.'' [] (py_replace ''R$'' [] s)))"
    using n(3) by (rule replace_keeps)
  then show ?thesis unfolding limpar_texto_def using n(4) by (rule strip_keeps)
qed

lemma limpar_moeda_bad_char:
  assumes "c \<in> set s" "\<not> literal_char c"
  shows "limpar_moeda rt (PyStr s) = Inr (PyFloat (Fin 0))"
  using py_float_bad [OF limpar_texto_keeps [OF assms] assms(2)]
  by (rule limpar_moeda_falha)

lemma limpar_texto_us: "limpar_texto ''1,234.56'' = ''1.23456''"
  by code_simp

lemma limpar_texto_inf: "limpar_texto ''inf'' = ''inf''"
  by code_simp

lemma not_currency_us: "\<not> spec_currency_form ''1,234.56''"
  by code_simp

lemma not_currency_inf: "\<not> spec_currency_form ''inf''"
  by code_simp

lemma not_currency_1e3: "\<not> spec_currency_form ''1e3''"
  by code_simp

lemma py_float_inf: "py_float rt ''inf'' = Inr PInf"
  by (simp add: py_float_def py_strip_def is_space_def ord_def py_lower_def lower_char_def
      is_digit_def)

lemma py_float_us: "py_float rt ''1.23456'' = Inr (to_double rt (3858 / 3125))"
proof -
  have "py_float rt (''1'' @ ''.23456'')
        = Inr (to_float rt (rat_of_nat (digits_val (''1'' @ ''23456'')) / 10 ^ length ''23456''))"
    by (rule py_float_digits) (simp_all add: is_digit_def ord_def)
  moreover have "rat_of_nat (digits_val (''1'' @ ''23456'')) / 10 ^ length ''23456''
                 = 3858 / 3125"
    by (simp add: digits_val_def digit_val_def ord_def)
  moreover have "\<lfloor>3858 / 3125 :: rat\<rfloor> = 1" by (rule floor_unique) simp_all
  then have "to_float rt (3858 / 3125) = to_double rt (3858 / 3125)"
    by (simp add: to_float_def)
  ultimately show ?thesis by simp
qed

lemma py_float_1e3: "py_float rt (limpar_texto ''1e3'') = Inr (Fin 1000)"
proof -
  have t: "limpar_texto ''1e3'' = ''1e3''" by code_simp
  have su: "strip_underscores (CHR 0x00) ''1e3'' = Some ''1e3''" by code_simp
  have sp: "py_strip ''1e3'' = ''1e3''" by code_simp
  have lo: "py_lower ''1e3'' = ''1e3''" by code_simp
  have pd: "parse_decimal ''1e3'' = Some 1000" by code_simp
  have body: "(if ''1e3'' \<noteq> [] \<and> (hd ''1e3'' = CHR ''-'' \<or> hd ''1e3'' = CHR ''+'')
               then tl ''1e3'' else ''1e3'') = ''1e3''"
    by simp
  have neg: "(''1e3'' \<noteq> [] \<and> hd ''1e3'' = CHR ''-'') = False" by simp
  show ?thesis
    unfolding t py_float_def su option.case sp Let_def body neg lo pd
    by (simp add: to_float_def)
qed

lemma currency_form_exemplo: "spec_currency_form ''R$ 1.234,56''"
  by code_simp

lemma currency_value_exemplo: "spec_currency_value ''R$ 1.234,56'' = 30864 / 25"
  by code_simp

lemma py_float_nd: "py_float exemplo_rt (limpar_texto ''n/d'') = Inl ValueError"
  by code_simp

lemma py_float_exemplo_1e3: "py_float exemplo_rt (limpar_texto ''1e3'') = Inr (Fin 1000)"
  by (rule py_float_1e3)

lemma to_float_exemplo: "to_float exemplo_rt q = Fin q"
  by (simp add: to_float_def exemplo_rt_def)

lemma number_34_5: "is_number (PyFloat (Fin (69 / 2)))"
  by (simp add: is_number_def)

lemma not_literal_r: "\<not> literal_char (CHR ''r'')"
  by code_simp

lemma not_literal_l: "\<not> literal_char (CHR ''l'')"
  by code_simp

lemma limpar_texto_int:
  assumes d: "list_all is_digit d" "d \<noteq> []" and sg: "sg = [] \<or> sg = ''-''"
  shows "limpar_texto (sg @ d) = sg @ d"
proof -
  have r: "CHR ''R'' \<notin> set (sg @ d)"
    using digits_props(1) [OF d(1)] sg by auto
  have A: "py_replace ''R$'' [] (sg @ d) = sg @ d" using r by (rule replace_RS_noR)
  have "filter (\<lambda>x. x \<noteq> CHR ''.'') (sg @ d) = sg @ d"
    using filter_all [OF digits_props(2) [OF d(1)]] sg by auto
  then have B: "py_replace ''.'' [] (sg @ d) = sg @ d" by (simp only: replace_char_del)
  have "map (\<lambda>x. if x = CHR '','' then CHR ''.'' else x) (sg @ d) = sg @ d"
    using map_fix [OF digits_props(4) [OF d(1)]] sg by auto
  then have C: "py_replace '','' ''.'' (sg @ d) = sg @ d" by (simp only: replace_char_map)
  obtain c d' where dc: "d = c # d'" and c: "is_digit c"
    using d by (cases d) auto
  have "is_digit (last d)" using d unfolding list_all_iff by (metis last_in_set)
  then have l: "\<not> is_space (last (sg @ d))" using d(2) by (simp add: digit_chars)
  have h: "\<not> is_space (hd (sg @ d))"
  proof (cases "sg = []")
    case True
    then show ?thesis using dc digit_chars(1) [OF c] by simp
  next
    case False
    with sg have "sg = ''-''" by simp
    then show ?thesis by (simp add: is_space_def ord_def)
  qed
  have D: "py_strip (sg @ d) = sg @ d"
    using h l d(2) by (intro strip_id) simp_all
  show ?thesis unfolding limpar_texto_def A B C D ..
qed

lemma limpar_moeda_np_int:
  "limpar_moeda rt (NpInt i) = Inr (PyFloat (to_float rt (of_int i)))"
proof (cases "i < 0")
  case True
  let ?d = "str_nat (nat (- i))"
  have s: "py_str rt (NpInt i) = ''-'' @ ?d"
    using True by (simp add: py_str_def str_int_def)
  have t: "limpar_texto (''-'' @ ?d) = ''-'' @ ?d"
    by (rule limpar_texto_int) (simp_all add: str_nat_digits str_nat_not_Nil)
  have nz: "digits_val ?d \<noteq> 0" using True by (simp add: digits_val_str_nat)
  have "py_float rt (CHR ''-'' # ?d) = Inr (to_float rt (- rat_of_nat (digits_val ?d)))"
    using str_nat_digits str_nat_not_Nil nz by (rule py_float_neg_digits)
  moreover have "- rat_of_nat (digits_val ?d) = rat_of_int i"
    using True by (simp add: digits_val_str_nat)
  ultimately have "py_float rt (''-'' @ ?d) = Inr (to_float rt (rat_of_int i))" by simp
  then show ?thesis
    unfolding limpar_moeda_def s t by (simp add: is_number_def)
next
  case False
  let ?d = "str_nat (nat i)"
  have s: "py_str rt (NpInt i) = [] @ ?d"
    using False by (simp add: py_str_def str_int_def)
  have t: "limpar_texto ([] @ ?d) = [] @ ?d"
    by (rule limpar_texto_int) (simp_all add: str_nat_digits str_nat_not_Nil)
  have "py_float rt (?d @ [])
        = Inr (to_float rt (rat_of_nat (digits_val (?d @ [])) / 10 ^ length ([] :: string)))"
    by (rule py_float_digits) (simp_all add: str_nat_digits str_nat_not_Nil)
  moreover have "rat_of_nat (digits_val ?d) = rat_of_int i"
    using False by (simp add: digits_val_str_nat)
  ultimately have "py_float rt ([] @ ?d) = Inr (to_float rt (rat_of_int i))" by simp
  then show ?thesis
    unfolding limpar_moeda_def s t by (simp add: is_number_def)
qed

lemma limpar_moeda_np_bool: "limpar_moeda rt (NpBool b) = Inr (PyFloat (Fin 0))"
proof -
  have "CHR ''r'' \<in> set ''True''" by simp
  then have "CHR ''r'' \<in> set (limpar_texto ''True'')"
    using not_literal_r by (rule limpar_texto_keeps)
  then have T: "py_float rt (limpar_texto ''True'') = Inl ValueError"
    using not_literal_r by (rule py_float_bad)
  have "CHR ''l'' \<in> set ''False''" by simp
  then have "CHR ''l'' \<in> set (limpar_texto ''False'')"
    using not_literal_l by (rule limpar_texto_keeps)
  then have F: "py_float rt (limpar_texto ''False'') = Inl ValueError"
    using not_literal_l by (rule py_float_bad)
  show ?thesis
    by (cases b) (simp_all add: limpar_moeda_def is_number_def py_str_def T F)
qed

lemma to_float_int: "\<bar>i\<bar> \<le> 2 ^ 53 \<Longrightarrow> to_float rt (rat_of_int i) = Fin (rat_of_int i)"
proof -
  assume "\<bar>i\<bar> \<le> 2 ^ 53"
  then have "\<bar>rat_of_int i\<bar> \<le> rat_of_int (2 ^ 53)"
    by (simp only: of_int_abs [symmetric] of_int_le_iff)
  then show ?thesis by (simp add: to_float_def)
qed

lemma amount_props:
  "\<exists>v. limpar_moeda rt (row_get r k (PyInt 0)) = Inr v
     \<and> (map_of r k = None \<longrightarrow> v = PyInt 0 \<and> spec_nonneg v)
     \<and> (\<forall>s e. map_of r k = Some (PyStr s) \<and> py_float rt (limpar_texto s) = Inl e
           \<longrightarrow> v = PyFloat (Fin 0) \<and> spec_nonneg v)
     \<and> (\<forall>c. map_of r k = Some c \<and> is_number c \<longrightarrow> v = c)
     \<and> (\<forall>i. map_of r k = Some (NpInt i)
           \<longrightarrow> v = PyFloat (to_float rt (rat_of_int i))
               \<and> (\<bar>i\<bar> \<le> 2 ^ 53 \<longrightarrow> v = PyFloat (Fin (rat_of_int i))))
     \<and> (\<forall>b. map_of r k = Some (NpBool b) \<longrightarrow> v = PyFloat (Fin 0))
     \<and> (\<forall>s. map_of r k = Some (PyStr s) \<and> spec_currency_form s
           \<longrightarrow> v = PyFloat (to_float rt (spec_currency_value s)) \<and> 0 \<le> spec_currency_value s)"
proof -
  obtain v where v: "limpar_moeda rt (row_get r k (PyInt 0)) = Inr v"
    using limpar_moeda_total by blast
  have a: "map_of r k = None \<longrightarrow> v = PyInt 0 \<and> spec_nonneg v"
    using v limpar_moeda_absent [of r k rt] by (auto simp: spec_nonneg_def)
  have b: "\<forall>s e. map_of r k = Some (PyStr s) \<and> py_float rt (limpar_texto s) = Inl e
           \<longrightarrow> v = PyFloat (Fin 0) \<and> spec_nonneg v"
    using v limpar_moeda_falha [of rt] by (auto simp: row_get_def spec_nonneg_def)
  have c: "\<forall>c. map_of r k = Some c \<and> is_number c \<longrightarrow> v = c"
    using v limpar_moeda_number [of _ rt] by (auto simp: row_get_def)
  have n: "\<forall>i. map_of r k = Some (NpInt i)
           \<longrightarrow> v = PyFloat (to_float rt (rat_of_int i))
               \<and> (\<bar>i\<bar> \<le> 2 ^ 53 \<longrightarrow> v = PyFloat (Fin (rat_of_int i)))"
    using v limpar_moeda_np_int [of rt] to_float_int [of _ rt] by (auto simp: row_get_def)
  have m: "\<forall>b. map_of r k = Some (NpBool b) \<longrightarrow> v = PyFloat (Fin 0)"
    using v limpar_moeda_np_bool [of rt] by (auto simp: row_get_def)
  have d: "\<forall>s. map_of r k = Some (PyStr s) \<and> spec_currency_form s
           \<longrightarrow> v = PyFloat (to_float rt (spec_currency_value s)) \<and> 0 \<le> spec_currency_value s"
    using v limpar_moeda_currency [of _ rt] currency_value_nonneg by (auto simp: row_get_def)
  show ?thesis by (rule exI [of _ v]) (intro conjI v a b c n m d)
qed

section \<open>The currency normaliser\<close>

text \<open>
  C1. The claim: a number is returned unchanged, a currency string of the form
  \<open>R$ 1.234,56\<close> gives the float it denotes, and every malformed string gives 0.0
  without an exception. A Python number (\<open>int\<close>, \<open>float\<close>, \<open>bool\<close>) is returned unchanged;
  the integer scalar of the array library, which the rows of an all-integer table hold,
  is not: it is returned as the float of the same value, and the boolean scalar as 0.0.
  A currency string gives the double nearest the number it denotes, and no input raises
  an exception. The result for a text is decided by \<open>float\<close> on the cleaned text alone:
  0.0 when \<open>float\<close> rejects it, and so for every text with a character that is neither
  removed by the cleaning nor part of any float literal; the float that \<open>float\<close> returns
  otherwise, whatever the form of the text. So the third part fails for texts outside
  the currency form whose cleaned text is a float literal: \<open>1e3\<close> gives 1000.0,
  \<open>1,234.56\<close> gives the double nearest 1.23456 and \<open>inf\<close> gives infinity.
\<close>

theorem C1_limpar_moeda:
  "(is_number v \<longrightarrow> limpar_moeda rt v = Inr v)
   \<and> limpar_moeda rt (NpInt i) = Inr (PyFloat (to_float rt (rat_of_int i)))
   \<and> (\<bar>i\<bar> \<le> 2 ^ 53 \<longrightarrow> limpar_moeda rt (NpInt i) = Inr (PyFloat (Fin (rat_of_int i))))
   \<and> limpar_moeda rt (NpBool b) = Inr (PyFloat (Fin 0))
   \<and> (spec_currency_form s \<longrightarrow>
        limpar_moeda rt (PyStr s) = Inr (PyFloat (to_float rt (spec_currency_value s))))
   \<and> (py_float rt (limpar_texto s) = Inl e \<longrightarrow>
        limpar_moeda rt (PyStr s) = Inr (PyFloat (Fin 0)))
   \<and> (py_float rt (limpar_texto s) = Inr f \<longrightarrow>
        limpar_moeda rt (PyStr s) = Inr (PyFloat f))
   \<and> (c \<in> set s \<and> \<not> literal_char c \<longrightarrow>
        limpar_moeda rt (PyStr s) = Inr (PyFloat (Fin 0)))
   \<and> (\<exists>r. limpar_moeda rt x = Inr r)"
proof (intro conjI impI)
  show "limpar_moeda rt (NpInt i) = Inr (PyFloat (to_float rt (rat_of_int i)))"
    by (rule limpar_moeda_np_int)
  show "limpar_moeda rt (NpBool b) = Inr (PyFloat (Fin 0))"
    by (rule limpar_moeda_np_bool)
  show "\<exists>r. limpar_moeda rt x = Inr r" by (rule limpar_moeda_total)
next
  assume "is_number v"
  then show "limpar_moeda rt v = Inr v" by (rule limpar_moeda_number)
next
  assume "\<bar>i\<bar> \<le> 2 ^ 53"
  then show "limpar_moeda rt (NpInt i) = Inr (PyFloat (Fin (rat_of_int i)))"
    by (simp add: limpar_moeda_np_int to_float_int)
next
  assume "spec_currency_form s"
  then show "limpar_moeda rt (PyStr s) = Inr (PyFloat (to_float rt (spec_currency_value s)))"
    by (rule limpar_moeda_currency)
next
  assume "py_float rt (limpar_texto s) = Inl e"
  then show "limpar_moeda rt (PyStr s) = Inr (PyFloat (Fin 0))" by (rule limpar_moeda_falha)
next
  assume "py_float rt (limpar_texto s) = Inr f"
  then show "limpar_moeda rt (PyStr s) = Inr (PyFloat f)" by (rule limpar_moeda_parsed)
next
  assume "c \<in> set s \<and> \<not> literal_char c"
  then show "limpar_moeda rt (PyStr s) = Inr (PyFloat (Fin 0))"
    by (blast intro: limpar_moeda_bad_char)
qed

theorem C1_witness:
  "limpar_moeda exemplo_rt (PyInt 7) = Inr (PyInt 7)
   \<and> limpar_moeda exemplo_rt (NpInt 7) = Inr (PyFloat (Fin 7))
   \<and> limpar_moeda exemplo_rt (PyStr ''R$ 1.234,56'') = Inr (PyFloat (Fin (30864 / 25)))
   \<and> limpar_moeda exemplo_rt (PyStr ''n/d'') = Inr (PyFloat (Fin 0))
   \<and> limpar_moeda exemplo_rt (PyStr ''1e3'') = Inr (PyFloat (Fin 1000))
   \<and> limpar_moeda exemplo_rt (PyStr ''12 reais'') = Inr (PyFloat (Fin 0))
   \<and> (\<exists>r. limpar_moeda exemplo_rt NaT = Inr r)"
proof -
  note c1 = C1_limpar_moeda [where rt = exemplo_rt and v = "PyInt 7" and i = 7 and x = NaT]
  have n: "is_number (PyInt 7)" by (simp add: is_number_def)
  from c1 n have a: "limpar_moeda exemplo_rt (PyInt 7) = Inr (PyInt 7)" by blast
  have "\<bar>7 :: int\<bar> \<le> 2 ^ 53" by simp
  with c1 have "limpar_moeda exemplo_rt (NpInt 7) = Inr (PyFloat (Fin (rat_of_int 7)))"
    by blast
  then have a': "limpar_moeda exemplo_rt (NpInt 7) = Inr (PyFloat (Fin 7))" by simp
  from c1 [where s = "''R$ 1.234,56''"] currency_form_exemplo
  have "limpar_moeda exemplo_rt (PyStr ''R$ 1.234,56'')
        = Inr (PyFloat (to_float exemplo_rt (spec_currency_value ''R$ 1.234,56'')))" by blast
  then have b: "limpar_moeda exemplo_rt (PyStr ''R$ 1.234,56'') = Inr (PyFloat (Fin (30864 / 25)))"
    by (simp add: currency_value_exemplo to_float_exemplo)
  from c1 have d: "\<exists>r. limpar_moeda exemplo_rt NaT = Inr r" by blast
  from c1 [where s = "''n/d''" and e = ValueError] py_float_nd
  have c: "limpar_moeda exemplo_rt (PyStr ''n/d'') = Inr (PyFloat (Fin 0))" by blast
  from c1 [where s = "''1e3''" and f = "Fin 1000"] py_float_exemplo_1e3
  have p: "limpar_moeda exemplo_rt (PyStr ''1e3'') = Inr (PyFloat (Fin 1000))" by blast
  have "CHR ''r'' \<in> set ''12 reais''" "\<not> literal_char (CHR ''r'')"
    by (simp_all add: not_literal_r)
  with c1 [where s = "''12 reais''" and c = "CHR ''r''"]
  have e: "limpar_moeda exemplo_rt (PyStr ''12 reais'') = Inr (PyFloat (Fin 0))" by blast
  from a a' b c p e d show ?thesis by (intro conjI)
qed

theorem C1_counterexample:
  "\<not> spec_currency_form ''1e3''
   \<and> (\<forall>rt. limpar_moeda rt (PyStr ''1e3'') = Inr (PyFloat (Fin 1000)))
   \<and> PyFloat (Fin 1000) \<noteq> PyFloat (Fin 0)
   \<and> \<not> spec_currency_form ''1,234.56''
   \<and> (\<forall>rt. limpar_moeda rt (PyStr ''1,234.56'') = Inr (PyFloat (to_double rt (3858 / 3125))))
   \<and> \<not> spec_currency_form ''inf''
   \<and> (\<forall>rt. limpar_moeda rt (PyStr ''inf'') = Inr (PyFloat PInf))
   \<and> PyFloat PInf \<noteq> PyFloat (Fin 0)"
  by (simp add: not_currency_us not_currency_inf not_currency_1e3 limpar_moeda_def
      is_number_def py_str_def limpar_texto_us limpar_texto_inf py_float_inf py_float_us
      py_float_1e3)

section \<open>The amounts of a row\<close>

text \<open>
  C3. The claim: the canonical values of \<open>V. Devido\<close>, \<open>V. Receb\<close> and \<open>V. Desc\<close> are
  always present and non-negative, 0.0 by default. They are always present: the
  normaliser returns a value for every cell. The value is 0 when the column is absent and
  0.0 when the cell is a text that \<open>float\<close> rejects after cleaning; it is the cell itself
  when the cell is a Python number, whatever its sign; it is the float of the same value
  when the cell is an integer scalar of the array library, exactly so up to \<open>2^53\<close>, and
  0.0 when it is a boolean scalar; and it is the double nearest the non-negative denoted
  value when the cell is a currency string. The program has no check of the sign: the
  cell \<open>-5\<close> gives the canonical value \<open>-5\<close> in a table with a text column and \<open>-5.0\<close> in
  a table of integers.
\<close>

theorem C3_amounts:
  assumes "(f, k) \<in> {(val_devido, ''V. Devido''), (val_receb, ''V. Receb''),
                      (val_desc, ''V. Desc'')}"
  shows "\<exists>v. f rt r = Inr v
     \<and> (map_of r k = None \<longrightarrow> v = PyInt 0 \<and> spec_nonneg v)
     \<and> (\<forall>s e. map_of r k = Some (PyStr s) \<and> py_float rt (limpar_texto s) = Inl e
           \<longrightarrow> v = PyFloat (Fin 0) \<and> spec_nonneg v)
     \<and> (\<forall>c. map_of r k = Some c \<and> is_number c \<longrightarrow> v = c)
     \<and> (\<forall>i. map_of r k = Some (NpInt i)
           \<longrightarrow> v = PyFloat (to_float rt (rat_of_int i))
               \<and> (\<bar>i\<bar> \<le> 2 ^ 53 \<longrightarrow> v = PyFloat (Fin (rat_of_int i))))
     \<and> (\<forall>b. map_of r k = Some (NpBool b) \<longrightarrow> v = PyFloat (Fin 0))
     \<and> (\<forall>s. map_of r k = Some (PyStr s) \<and> spec_currency_form s
           \<longrightarrow> v = PyFloat (to_float rt (spec_currency_value s)) \<and> 0 \<le> spec_currency_value s)"
proof -
  from assms have "f rt r = limpar_moeda rt (row_get r k (PyInt 0))"
    by (auto simp: val_devido_def val_receb_def val_desc_def)
  then show ?thesis using amount_props [of rt r k] by simp
qed

theorem C3_witness:
  "val_devido exemplo_rt (snd (exemplo_df ! 0)) = Inr (PyFloat (Fin (30864 / 25)))
   \<and> val_receb exemplo_rt (snd (exemplo_df ! 0)) = Inr (PyInt 0)
   \<and> val_desc exemplo_rt (snd (exemplo_df ! 0)) = Inr (PyFloat (Fin (69 / 2)))
   \<and> val_desc exemplo_rt (snd (exemplo_df ! 1)) = Inr (PyFloat (Fin 0))
   \<and> val_devido exemplo_rt [(''V. Devido'', NpInt 250)] = Inr (PyFloat (Fin 250))
   \<and> val_desc exemplo_rt [(''V. Desc'', NpBool True)] = Inr (PyFloat (Fin 0))"
proof -
  let ?r0 = "snd (exemplo_df ! 0)"
  let ?r1 = "snd (exemplo_df ! 1)"
  have m1: "map_of ?r0 ''V. Devido'' = Some (PyStr ''R$ 1.234,56'')"
    and m2: "map_of ?r0 ''V. Receb'' = None"
    and m3: "map_of ?r0 ''V. Desc'' = Some (PyFloat (Fin (69 / 2)))"
    and m4: "map_of ?r1 ''V. Desc'' = Some (PyStr ''n/d'')"
    and m5: "map_of [(''V. Devido'', NpInt 250)] ''V. Devido'' = Some (NpInt 250)"
    and m6: "map_of [(''V. Desc'', NpBool True)] ''V. Desc'' = Some (NpBool True)"
    by (simp_all add: exemplo_df_def)
  from C3_amounts [of val_devido "''V. Devido''" exemplo_rt ?r0]
  obtain v1 where v1: "val_devido exemplo_rt ?r0 = Inr v1" and
    p1: "\<forall>s. map_of ?r0 ''V. Devido'' = Some (PyStr s) \<and> spec_currency_form s
           \<longrightarrow> v1 = PyFloat (to_float exemplo_rt (spec_currency_value s))
               \<and> 0 \<le> spec_currency_value s"
    by auto
  from p1 m1 currency_form_exemplo
  have "v1 = PyFloat (to_float exemplo_rt (spec_currency_value ''R$ 1.234,56''))" by blast
  then have a: "v1 = PyFloat (Fin (30864 / 25))"
    by (simp add: currency_value_exemplo to_float_exemplo)
  from C3_amounts [of val_receb "''V. Receb''" exemplo_rt ?r0]
  obtain v2 where v2: "val_receb exemplo_rt ?r0 = Inr v2" and
    p2: "map_of ?r0 ''V. Receb'' = None \<longrightarrow> v2 = PyInt 0 \<and> spec_nonneg v2"
    by auto
  from p2 m2 have b: "v2 = PyInt 0" by blast
  from C3_amounts [of val_desc "''V. Desc''" exemplo_rt ?r0]
  obtain v3 where v3: "val_desc exemplo_rt ?r0 = Inr v3" and
    p3: "\<forall>c. map_of ?r0 ''V. Desc'' = Some c \<and> is_number c \<longrightarrow> v3 = c"
    by auto
  from p3 m3 number_34_5 have c: "v3 = PyFloat (Fin (69 / 2))" by blast
  from C3_amounts [of val_desc "''V. Desc''" exemplo_rt ?r1]
  obtain v4 where v4: "val_desc exemplo_rt ?r1 = Inr v4" and
    p4: "\<forall>s e. map_of ?r1 ''V. Desc'' = Some (PyStr s)
           \<and> py_float exemplo_rt (limpar_texto s) = Inl e
           \<longrightarrow> v4 = PyFloat (Fin 0) \<and> spec_nonneg v4"
    by auto
  from p4 m4 py_float_nd have d: "v4 = PyFloat (Fin 0)" by blast
  from C3_amounts [of val_devido "''V. Devido''" exemplo_rt "[(''V. Devido'', NpInt 250)]"]
  obtain v5 where v5: "val_devido exemplo_rt [(''V. Devido'', NpInt 250)] = Inr v5" and
    p5: "\<forall>i. map_of [(''V. Devido'', NpInt 250)] ''V. Devido'' = Some (NpInt i)
           \<longrightarrow> v5 = PyFloat (to_float exemplo_rt (rat_of_int i))
               \<and> (\<bar>i\<bar> \<le> 2 ^ 53 \<longrightarrow> v5 = PyFloat (Fin (rat_of_int i)))"
    by auto
  from p5 m5 have "\<bar>250 :: int\<bar> \<le> 2 ^ 53 \<longrightarrow> v5 = PyFloat (Fin (rat_of_int 250))" by blast
  then have e: "v5 = PyFloat (Fin 250)" by simp
  from C3_amounts [of val_desc "''V. Desc''" exemplo_rt "[(''V. Desc'', NpBool True)]"]
  obtain v6 where v6: "val_desc exemplo_rt [(''V. Desc'', NpBool True)] = Inr v6" and
    p6: "\<forall>b. map_of [(''V. Desc'', NpBool True)] ''V. Desc'' = Some (NpBool b)
           \<longrightarrow> v6 = PyFloat (Fin 0)"
    by auto
  from p6 m6 have g: "v6 = PyFloat (Fin 0)" by blast
  from v1 v2 v3 v4 v5 v6 a b c d e g show ?thesis by simp
qed

theorem C3_counterexample:
  "\<forall>rt. val_devido rt [(''Nome'', PyStr ''Ana''), (''V. Devido'', PyInt (- 5))]
          = Inr (PyInt (- 5))
        \<and> \<not> spec_nonneg (PyInt (- 5))
        \<and> val_devido rt [(''V. Devido'', NpInt (- 5))] = Inr (PyFloat (Fin (- 5)))
        \<and> \<not> spec_nonneg (PyFloat (Fin (- 5)))"
  by (simp add: val_devido_def row_get_def limpar_moeda_number limpar_moeda_np_int
      is_number_def spec_nonneg_def to_float_def)

end
